theory Spec2Isabelle
  imports Main "HOL-Library.AList"
begin

section \<open>JavaScript values and the Table class (table.js)\<close>

text \<open>
  The values a Table instance can hold. A field list is an array of
  \<open>{name, type, value}\<close> objects; a Table instance is an object, given by its own
  properties in creation order. \<open>Undefined\<close> is JavaScript's \<open>undefined\<close>.
\<close>

datatype jsval =
    Undefined
  | Number int
  | String string
  | Fields "(string \<times> string \<times> jsval) list"
  | Instance "(string \<times> jsval) list"
  | Function string

type_synonym field = "string \<times> string \<times> jsval"
type_synonym props = "(string \<times> jsval) list"

definition fieldName :: "field \<Rightarrow> string" where
  "fieldName f = fst f"

definition fieldValue :: "field \<Rightarrow> jsval" where
  "fieldValue f = snd (snd f)"

text \<open>
  \<open>this[k]\<close>: the own property when there is one, otherwise what the prototype chain
  gives (\<open>proto k\<close>, \<open>Undefined\<close> when no prototype has the name).
\<close>

definition getProp :: "(string \<Rightarrow> jsval) \<Rightarrow> props \<Rightarrow> string \<Rightarrow> jsval" where
  "getProp proto this k = (case map_of this k of Some v \<Rightarrow> v | None \<Rightarrow> proto k)"

text \<open>\<open>this[k] = v\<close>: overwrite the own property in place, or create it at the end.\<close>

definition setProp :: "string \<Rightarrow> jsval \<Rightarrow> props \<Rightarrow> props" where
  "setProp k v this = AList.update k v this"

text \<open>Lines 18-23 of the constructor: \<open>this[field.name] = field.value\<close> for each field.\<close>

definition seedFields :: "props \<Rightarrow> field list \<Rightarrow> props" where
  "seedFields this fs = foldl (\<lambda>t f. setProp (fieldName f) (fieldValue f) t) this fs"

text \<open>
  Lines 27-36: for each key of \<open>options\<close>, assign when \<open>this[k] !== undefined\<close>.
  The options object is given by its entries in \<open>Object.keys\<close> order.
\<close>

definition overlayOptions :: "(string \<Rightarrow> jsval) \<Rightarrow> props \<Rightarrow> props \<Rightarrow> props" where
  "overlayOptions proto this opts =
     foldl (\<lambda>t (k, v). if getProp proto t k \<noteq> Undefined then setProp k v t else t) this opts"

text \<open>
  The constructor. \<open>fields\<close> and \<open>options\<close> are \<open>None\<close> when the argument is
  \<open>undefined\<close>; the result is the instance's own properties.
\<close>

definition seeded :: "string \<Rightarrow> field list option \<Rightarrow> props" where
  "seeded tableName fields =
     (let this0 = (case fields of None \<Rightarrow> [] | Some fs \<Rightarrow> seedFields [] fs);
          this1 = setProp ''tableName'' (String tableName) this0
      in setProp ''fields'' (case fields of None \<Rightarrow> Undefined | Some fs \<Rightarrow> Fields fs) this1)"

definition Table :: "(string \<Rightarrow> jsval) \<Rightarrow> string \<Rightarrow> field list option \<Rightarrow> props option \<Rightarrow> props" where
  "Table proto tableName fields options =
     (case options of
        None \<Rightarrow> seeded tableName fields
      | Some opts \<Rightarrow> overlayOptions proto (seeded tableName fields) opts)"

text \<open>
  What a Table instance inherits: the members class \<open>Table\<close> declares, and behind them
  the methods of \<open>Object.prototype\<close>. (The accessor \<open>__proto__\<close> of
  \<open>Object.prototype\<close> is not a method and is not among them.)
\<close>

definition Object_prototype :: "string \<Rightarrow> jsval" where
  "Object_prototype k =
     (if k \<in> set [''constructor'', ''hasOwnProperty'', ''isPrototypeOf'',
                   ''propertyIsEnumerable'', ''toLocaleString'', ''toString'', ''valueOf'',
                   ''__defineGetter__'', ''__defineSetter__'', ''__lookupGetter__'',
                   ''__lookupSetter__'']
      then Function k else Undefined)"

definition Table_prototype :: "string \<Rightarrow> jsval" where
  "Table_prototype k =
     (if k = ''constructor'' \<or> k = ''encode'' \<or> k = ''sizeOf'' then Function k
      else Object_prototype k)"

section \<open>Faults (check.js)\<close>

text \<open>
  \<open>check.assert(predicate, message)\<close> throws \<open>new Error(message)\<close> when the
  predicate is falsy: in the model, the result \<open>Inl (Error message)\<close>. A
  \<open>TypeError\<close> is what the runtime throws on reading a property of \<open>undefined\<close>
  or iterating it, a \<open>ReferenceError\<close> what it throws on evaluating a name that is
  bound nowhere.
\<close>

datatype error = Error string | TypeError string | ReferenceError string

section \<open>The GSUB tree: scripts, features\<close>

record langSys =
  reserved :: int
  reqFeatureIndex :: int
  featureIndexes :: "nat list"

record langSysRecord =
  tag :: string
  langSys :: langSys

text \<open>\<open>defaultLangSys\<close> is \<open>None\<close> when the script has no default language system.\<close>

record script =
  defaultLangSys :: "langSys option"
  langSysRecords :: "langSysRecord list"

record scriptRecord =
  tag :: string
  script :: script

record feature =
  featureParams :: int
  lookupListIndexes :: "nat list"

record featureRecord =
  tag :: string
  feature :: feature

section \<open>List and record builders (table.js)\<close>

text \<open>The decimal digits of an index, as \<open>"glyph" + i\<close> appends them.\<close>

function decimal :: "nat \<Rightarrow> string" where
  "decimal n = (if n < 10 then [char_of (48 + n)]
                else decimal (n div 10) @ [char_of (48 + n mod 10)])"
  by pat_completeness auto
termination
  by (relation "measure (\<lambda>n. n)") auto

declare decimal.simps [simp del]

text \<open>A loop \<open>for (i = ...; i < list.length; i++)\<close> that collects \<open>f(list[i], i)\<close>.\<close>

fun indexed :: "nat \<Rightarrow> 'a list \<Rightarrow> (nat \<times> 'a) list" where
  "indexed i [] = []"
| "indexed i (x # xs) = (i, x) # indexed (Suc i) xs"

text \<open>The same loop with a callback that may throw: the first fault ends it.\<close>

fun forEachIndex :: "('r \<Rightarrow> nat \<Rightarrow> error + 'b) \<Rightarrow> nat \<Rightarrow> 'r list \<Rightarrow> error + 'b list" where
  "forEachIndex cb i [] = Inr []"
| "forEachIndex cb i (r # rs) =
     (case cb r i of
        Inl e \<Rightarrow> Inl e
      | Inr b \<Rightarrow> (case forEachIndex cb (Suc i) rs of
                    Inl e \<Rightarrow> Inl e
                  | Inr bs \<Rightarrow> Inr (b # bs)))"

definition ushortList :: "string \<Rightarrow> nat list \<Rightarrow> int option \<Rightarrow> field list" where
  "ushortList itemName list count =
     (itemName @ ''Count'', ''USHORT'',
        Number (case count of None \<Rightarrow> int (length list) | Some c \<Rightarrow> c))
     # map (\<lambda>(i, x). (itemName @ decimal i, ''USHORT'', Number (int x))) (indexed 0 list)"

definition recordList ::
  "string \<Rightarrow> 'r list \<Rightarrow> ('r \<Rightarrow> nat \<Rightarrow> error + field list) \<Rightarrow> error + field list" where
  "recordList itemName records itemCallback =
     (case forEachIndex itemCallback 0 records of
        Inl e \<Rightarrow> Inl e
      | Inr fss \<Rightarrow>
          Inr ((itemName @ ''Count'', ''USHORT'', Number (int (length records))) # concat fss))"

section \<open>ScriptList (table.js)\<close>

text \<open>\<open>new Table(name, fields)\<close>, as a value.\<close>

definition newTable :: "string \<Rightarrow> field list \<Rightarrow> jsval" where
  "newTable tableName fs = Instance (Table Table_prototype tableName (Some fs) None)"

definition langSysFields :: "langSysRecord \<Rightarrow> nat \<Rightarrow> error + field list" where
  "langSysFields langSysRecord i =
     (let ls = langSys langSysRecord in
      Inr [(''langSysTag'' @ decimal i, ''TAG'', String (langSysRecord.tag langSysRecord)),
           (''langSys'' @ decimal i, ''TABLE'',
            newTable ''langSys''
              ([(''lookupOrder'', ''USHORT'', Number 0),
                (''reqFeatureIndex'', ''USHORT'', Number (reqFeatureIndex ls))]
               @ ushortList ''featureIndex'' (featureIndexes ls) None))])"

definition scriptRecordFields :: "scriptRecord \<Rightarrow> nat \<Rightarrow> error + field list" where
  "scriptRecordFields scriptRecord i =
     (let script = script scriptRecord in
      case defaultLangSys script of
        None \<Rightarrow>
          Inl (Error (''Unable to write GSUB: script '' @ scriptRecord.tag scriptRecord
                      @ '' has no default language system.''))
      | Some dls \<Rightarrow>
          (case recordList ''langSys'' (langSysRecords script) langSysFields of
             Inl e \<Rightarrow> Inl e
           | Inr langSysList \<Rightarrow>
               Inr [(''scriptTag'' @ decimal i, ''TAG'', String (scriptRecord.tag scriptRecord)),
                    (''script'' @ decimal i, ''TABLE'',
                     newTable ''scriptTable''
                       ([(''defaultLangSys'', ''TABLE'',
                          newTable ''defaultLangSys''
                            ([(''lookupOrder'', ''USHORT'', Number 0),
                              (''reqFeatureIndex'', ''USHORT'', Number (reqFeatureIndex dls))]
                             @ ushortList ''featureIndex'' (featureIndexes dls) None))]
                        @ langSysList))]))"

definition ScriptList :: "scriptRecord list \<Rightarrow> error + jsval" where
  "ScriptList scriptListTable =
     (case recordList ''scriptRecord'' scriptListTable scriptRecordFields of
        Inl e \<Rightarrow> Inl e
      | Inr fs \<Rightarrow> Inr (newTable ''scriptListTable'' fs))"

section \<open>The GSUB tree: coverage, subtables, lookups\<close>

text \<open>
  A coverage table is \<open>{format: 1, glyphs}\<close> or \<open>{format: 2, ranges}\<close>, a range
  being \<open>{start, end, index}\<close> (\<open>rangeEnd\<close> is the source's \<open>end\<close>).
\<close>

record rangeRecord =
  start :: int
  rangeEnd :: int
  index :: int

datatype coverage = CoverageFormat1 "int list" | CoverageFormat2 "rangeRecord list"

text \<open>
  What \<open>sub\<close> and \<open>by\<close> of a substitution hold, and what the arrays parallel to a
  coverage hold: a glyph id, an array of glyph ids, or \<open>undefined\<close> (also an array
  hole, and a read past the end of an array).
\<close>

datatype item = Undef | Glyph int | GlyphList "int list"

record substitution =
  sub :: item
  "by" :: item

record ligature =
  ligGlyph :: item
  components :: "int list"

text \<open>
  A subtable object carries \<open>substFormat\<close> and \<open>coverage\<close> and, by lookup type and
  format, one of \<open>deltaGlyphId\<close>, \<open>substitute\<close>, \<open>sequences\<close>, \<open>alternateSets\<close>,
  \<open>ligatureSets\<close>. The record holds them all; a property the object does not have is
  \<open>0\<close> or \<open>[]\<close> here. An entry of \<open>ligatureSets\<close> is \<open>None\<close> where the array has
  \<open>undefined\<close>.
\<close>

record subtable =
  substFormat :: nat
  coverage :: coverage
  deltaGlyphId :: int
  substitute :: "item list"
  sequences :: "item list"
  alternateSets :: "item list"
  ligatureSets :: "ligature list option list"

record lookupTable =
  lookupType :: nat
  lookupFlag :: int
  subtables :: "subtable list"

record gsub =
  version :: int
  scripts :: "scriptRecord list"
  features :: "featureRecord list"
  lookups :: "lookupTable list"

text \<open>
  The font's \<open>tables.gsub\<close>: \<open>None\<close> until the parser or the first mutation
  creates it.
\<close>

type_synonym font = "gsub option"

definition createDefaultTable :: gsub where
  "createDefaultTable =
     \<lparr>version = 1,
      scripts = [\<lparr>scriptRecord.tag = ''DFLT'',
                  script = \<lparr>defaultLangSys =
                              Some \<lparr>reserved = 0, reqFeatureIndex = 65535, featureIndexes = []\<rparr>,
                            langSysRecords = []\<rparr>\<rparr>],
      features = [],
      lookups = []\<rparr>"

text \<open>
  Modelled from the spec: \<open>expandCoverage\<close> of layout.js, which is not among the
  sources. Format 1 returns the stored list verbatim; format 2 flattens each range into
  \<open>start..end\<close> inclusive, in range order.
\<close>

fun expandCoverage :: "coverage \<Rightarrow> int list" where
  "expandCoverage (CoverageFormat1 glyphs) = glyphs"
| "expandCoverage (CoverageFormat2 ranges) = concat (map (\<lambda>r. [start r..rangeEnd r]) ranges)"

text \<open>
  Modelled from the spec: the loop of \<open>binSearch\<close> of layout.js, a classic binary
  search of \<open>arr\<close> between \<open>lo\<close> (inclusive) and \<open>hi\<close> (exclusive).
\<close>

function binSearchLoop :: "int list \<Rightarrow> int \<Rightarrow> nat \<Rightarrow> nat \<Rightarrow> int" where
  "binSearchLoop arr v lo hi =
     (if lo < hi \<and> hi \<le> length arr then
        (let mid = (lo + hi) div 2 in
         if arr ! mid = v then int mid
         else if arr ! mid < v then binSearchLoop arr v (mid + 1) hi
         else binSearchLoop arr v lo mid)
      else - 1 - int lo)"
  by pat_completeness auto
termination
  by (relation "measure (\<lambda>(arr, v, lo, hi). hi - lo)") auto

declare binSearchLoop.simps [simp del]

text \<open>
  Modelled from the spec: \<open>binSearch(sortedGlyphs, id)\<close> of layout.js: found gives the
  index, not found gives \<open>-1 - insertionPoint\<close>.
\<close>

definition binSearch :: "int list \<Rightarrow> int \<Rightarrow> int" where
  "binSearch arr v = binSearchLoop arr v 0 (length arr)"


section \<open>Layout resolution (layout.js)\<close>

text \<open>
  A loop over a list that returns at the first element that matches: its index, or
  \<open>None\<close> when the loop runs to the end.
\<close>

fun findIndex :: "('a \<Rightarrow> bool) \<Rightarrow> 'a list \<Rightarrow> nat option" where
  "findIndex P [] = None"
| "findIndex P (x # xs) = (if P x then Some 0 else map_option Suc (findIndex P xs))"

text \<open>
  Modelled from the spec: the script \<open>getLookupTables\<close> of layout.js resolves: the
  one asked for, by default \<open>DFLT\<close>, else the first available script.
\<close>

definition scriptName :: "gsub \<Rightarrow> string option \<Rightarrow> string" where
  "scriptName g scr =
     (case scr of
        Some s \<Rightarrow> s
      | None \<Rightarrow>
          if findIndex (\<lambda>r. scriptRecord.tag r = ''DFLT'') (scripts g) \<noteq> None then ''DFLT''
          else (case scripts g of [] \<Rightarrow> ''DFLT'' | r # rs \<Rightarrow> scriptRecord.tag r))"

text \<open>
  Modelled from the spec: the script record \<open>getLookupTables\<close> of layout.js
  resolves, by tag, as an index into \<open>scripts\<close>.
\<close>

definition findScript :: "gsub \<Rightarrow> string \<Rightarrow> nat option" where
  "findScript g name = findIndex (\<lambda>r. scriptRecord.tag r = name) (scripts g)"

text \<open>
  Modelled from the spec: which language system of a script \<open>getLookupTables\<close> of
  layout.js resolves: the default one or the record at an index.
\<close>

datatype langSysRef = DefaultLangSys | LangSysRecord nat

text \<open>
  Modelled from the spec: the language system \<open>getLookupTables\<close> of layout.js
  resolves by default, \<open>dflt\<close>, which is the script's default language system.
\<close>

definition isDefaultLanguage :: "string option \<Rightarrow> bool" where
  "isDefaultLanguage language = (language = None \<or> language = Some ''dflt'')"

text \<open>
  Modelled from the spec: the language system \<open>getLookupTables\<close> of layout.js
  resolves in a script, when the script has it.
\<close>

definition findLangSys :: "script \<Rightarrow> string option \<Rightarrow> langSysRef option" where
  "findLangSys s language =
     (if isDefaultLanguage language then
        (case defaultLangSys s of None \<Rightarrow> None | Some ls \<Rightarrow> Some DefaultLangSys)
      else map_option LangSysRecord
             (findIndex (\<lambda>r. Some (langSysRecord.tag r) = language) (langSysRecords s)))"

text \<open>
  Modelled from the spec: the language system of layout.js that a reference
  designates.
\<close>

fun langSysAt :: "script \<Rightarrow> langSysRef \<Rightarrow> langSys option" where
  "langSysAt s DefaultLangSys = defaultLangSys s"
| "langSysAt s (LangSysRecord j) =
     (if j < length (langSysRecords s) then Some (langSys (langSysRecords s ! j)) else None)"

text \<open>
  Modelled from the spec: feature presence in layout.js: the first index of the language
  system's feature-index list whose feature record has the tag.
\<close>

definition findFeature :: "gsub \<Rightarrow> langSys \<Rightarrow> string \<Rightarrow> nat option" where
  "findFeature g ls feat =
     find (\<lambda>i. i < length (features g) \<and> featureRecord.tag (features g ! i) = feat)
       (featureIndexes ls)"

text \<open>
  Modelled from the spec: the lookup tables of a feature that \<open>getLookupTables\<close> of
  layout.js returns: those of its lookup list indexes whose lookup table has the
  requested type, as indexes into \<open>lookups\<close>.
\<close>

definition lookupsOfType :: "gsub \<Rightarrow> nat list \<Rightarrow> nat \<Rightarrow> nat list" where
  "lookupsOfType g idxs ltype =
     filter (\<lambda>i. i < length (lookups g) \<and> lookupTable.lookupType (lookups g ! i) = ltype)
       idxs"

text \<open>
  Modelled from the spec: the first steps of \<open>getLookupTables\<close> of layout.js: the
  script, its language system, and the feature's presence in that language system's
  feature-index list, as the script index, the language system and the feature index;
  no match at any step gives \<open>None\<close>.
\<close>

definition locate ::
  "gsub \<Rightarrow> string option \<Rightarrow> string option \<Rightarrow> string \<Rightarrow> (nat \<times> langSysRef \<times> nat) option" where
  "locate g scr language feat =
     (case findScript g (scriptName g scr) of
        None \<Rightarrow> None
      | Some si \<Rightarrow>
          (case findLangSys (scriptRecord.script (scripts g ! si)) language of
             None \<Rightarrow> None
           | Some ref \<Rightarrow>
               (case langSysAt (scriptRecord.script (scripts g ! si)) ref of
                  None \<Rightarrow> None
                | Some ls \<Rightarrow>
                    (case findFeature g ls feat of
                       None \<Rightarrow> None
                     | Some fi \<Rightarrow> Some (si, ref, fi)))))"

text \<open>
  Modelled from the spec: \<open>getLookupTables\<close> of layout.js without \<open>create\<close>:
  script, language system, feature, then the lookup tables of the requested type; no
  match gives none.
\<close>

definition resolve :: "gsub \<Rightarrow> string option \<Rightarrow> string option \<Rightarrow> string \<Rightarrow> nat \<Rightarrow> nat list" where
  "resolve g scr language feat ltype =
     (case locate g scr language feat of
        None \<Rightarrow> []
      | Some (si, ref, fi) \<Rightarrow>
          lookupsOfType g (lookupListIndexes (featureRecord.feature (features g ! fi))) ltype)"

text \<open>
  Modelled from the spec: the language system \<open>getLookupTables\<close> of layout.js wires in
  with \<open>create\<close>, shaped as \<open>createDefaultTable\<close> shapes its own.
\<close>

definition newLangSys :: langSys where
  "newLangSys = \<lparr>reserved = 0, reqFeatureIndex = 65535, featureIndexes = []\<rparr>"

text \<open>
  Modelled from the spec: \<open>getLookupTables\<close> of layout.js with \<open>create\<close> wires a
  script entry when the script is not there.
\<close>

definition ensureScript :: "gsub \<Rightarrow> string \<Rightarrow> gsub" where
  "ensureScript g name =
     (case findScript g name of
        Some si \<Rightarrow> g
      | None \<Rightarrow>
          g\<lparr>scripts := scripts g
                @ [\<lparr>scriptRecord.tag = name,
                    script = \<lparr>defaultLangSys = Some newLangSys, langSysRecords = []\<rparr>\<rparr>]\<rparr>)"

text \<open>
  Modelled from the spec: \<open>getLookupTables\<close> of layout.js with \<open>create\<close> wires a
  language system entry when the script lacks it.
\<close>

definition ensureLangSysIn :: "script \<Rightarrow> string option \<Rightarrow> script" where
  "ensureLangSysIn s language =
     (case findLangSys s language of
        Some ref \<Rightarrow> s
      | None \<Rightarrow>
          if isDefaultLanguage language then s\<lparr>defaultLangSys := Some newLangSys\<rparr>
          else s\<lparr>langSysRecords := langSysRecords s
                    @ [\<lparr>langSysRecord.tag = the language, langSys = newLangSys\<rparr>]\<rparr>)"

text \<open>
  Modelled from the spec: the update of one script of the tree by \<open>getLookupTables\<close>
  of layout.js.
\<close>

definition mapScript :: "nat \<Rightarrow> (script \<Rightarrow> script) \<Rightarrow> gsub \<Rightarrow> gsub" where
  "mapScript si f g =
     g\<lparr>scripts := (scripts g)[si := (scripts g ! si)\<lparr>script := f (scriptRecord.script (scripts g ! si))\<rparr>]\<rparr>"

text \<open>
  Modelled from the spec: the update of one language system of a script by
  \<open>getLookupTables\<close> of layout.js.
\<close>

fun mapLangSys :: "langSysRef \<Rightarrow> (langSys \<Rightarrow> langSys) \<Rightarrow> script \<Rightarrow> script" where
  "mapLangSys DefaultLangSys f s = s\<lparr>defaultLangSys := map_option f (defaultLangSys s)\<rparr>"
| "mapLangSys (LangSysRecord j) f s =
     s\<lparr>langSysRecords := (langSysRecords s)
          [j := (langSysRecords s ! j)\<lparr>langSys := f (langSys (langSysRecords s ! j))\<rparr>]\<rparr>"

text \<open>
  Modelled from the spec: \<open>getLookupTables\<close> of layout.js with \<open>create\<close> wires a
  feature entry when the language system does not list the feature: a new feature
  record, and its index in the language system's feature-index list.
\<close>

definition ensureFeature :: "gsub \<Rightarrow> nat \<Rightarrow> langSysRef \<Rightarrow> langSys \<Rightarrow> string \<Rightarrow> gsub" where
  "ensureFeature g si ref ls feat =
     (case findFeature g ls feat of
        Some fi \<Rightarrow> g
      | None \<Rightarrow>
          mapScript si
            (mapLangSys ref (\<lambda>l. l\<lparr>featureIndexes := featureIndexes l @ [length (features g)]\<rparr>))
            (g\<lparr>features := features g
                  @ [\<lparr>featureRecord.tag = feat,
                      feature = \<lparr>featureParams = 0, lookupListIndexes = []\<rparr>\<rparr>]\<rparr>))"

text \<open>
  Modelled from the spec: \<open>getLookupTables\<close> of layout.js with \<open>create\<close> and no
  match synthesizes a fresh lookup table (given type, empty subtables, flag 0) and
  lists it in the feature.
\<close>

definition ensureLookup :: "gsub \<Rightarrow> nat \<Rightarrow> nat \<Rightarrow> gsub" where
  "ensureLookup g fi ltype =
     (if lookupsOfType g (lookupListIndexes (featureRecord.feature (features g ! fi))) ltype \<noteq> []
      then g
      else g\<lparr>lookups := lookups g @ [\<lparr>lookupType = ltype, lookupFlag = 0, subtables = []\<rparr>],
             features := (features g)
               [fi := (features g ! fi)
                  \<lparr>feature := (featureRecord.feature (features g ! fi))
                     \<lparr>lookupListIndexes :=
                        lookupListIndexes (featureRecord.feature (features g ! fi))
                        @ [length (lookups g)]\<rparr>\<rparr>]\<rparr>)"

text \<open>
  Modelled from the spec: the script, language system and feature entries
  \<open>getLookupTables\<close> of layout.js wires in with \<open>create\<close>, as needed.
\<close>

definition ensurePath :: "gsub \<Rightarrow> string option \<Rightarrow> string option \<Rightarrow> string \<Rightarrow> gsub" where
  "ensurePath g scr language feat =
     (let g1 = ensureScript g (scriptName g scr) in
      case findScript g1 (scriptName g scr) of
        None \<Rightarrow> g1
      | Some si \<Rightarrow>
          (let g2 = mapScript si (\<lambda>s. ensureLangSysIn s language) g1 in
           case findLangSys (scriptRecord.script (scripts g2 ! si)) language of
             None \<Rightarrow> g2
           | Some ref \<Rightarrow>
               (case langSysAt (scriptRecord.script (scripts g2 ! si)) ref of
                  None \<Rightarrow> g2
                | Some ls \<Rightarrow> ensureFeature g2 si ref ls feat)))"

text \<open>
  Modelled from the spec: everything \<open>getLookupTables\<close> of layout.js creates with
  \<open>create\<close>, as needed: script, language system, feature, then the lookup table.
\<close>

definition ensure :: "gsub \<Rightarrow> string option \<Rightarrow> string option \<Rightarrow> string \<Rightarrow> nat \<Rightarrow> gsub" where
  "ensure g scr language feat ltype =
     (let g3 = ensurePath g scr language feat in
      case locate g3 scr language feat of
        None \<Rightarrow> g3
      | Some (si, ref, fi) \<Rightarrow> ensureLookup g3 fi ltype)"

text \<open>
  Modelled from the spec: \<open>getLookupTables(script, language, feature, lookupType,
  create)\<close> of layout.js. The lookup tables are returned as indexes into \<open>lookups\<close> of
  the returned tree, which stand for the references the source returns. With
  \<open>create\<close> the tree is created by \<open>createDefaultTable\<close> when the font has none.
\<close>

definition getLookupTables ::
  "font \<Rightarrow> string option \<Rightarrow> string option \<Rightarrow> string \<Rightarrow> nat \<Rightarrow> bool \<Rightarrow> font \<times> nat list" where
  "getLookupTables font scr language feat ltype create =
     (if create then
        (let g = ensure (case font of None \<Rightarrow> createDefaultTable | Some g0 \<Rightarrow> g0)
                   scr language feat ltype
         in (Some g, resolve g scr language feat ltype))
      else (font, case font of None \<Rightarrow> [] | Some g \<Rightarrow> resolve g scr language feat ltype))"


section \<open>Substitution (substitution.js)\<close>

text \<open>
  \<open>glyphs[i]\<close> and \<open>arr[i]\<close>, \<open>undefined\<close> past the end; \<open>sub + delta\<close>.
\<close>

definition glyphAt :: "int list \<Rightarrow> nat \<Rightarrow> item" where
  "glyphAt glyphs i = (if i < length glyphs then Glyph (glyphs ! i) else Undef)"

definition itemAt :: "item list \<Rightarrow> nat \<Rightarrow> item" where
  "itemAt arr i = (if i < length arr then arr ! i else Undef)"

definition plusDelta :: "item \<Rightarrow> int \<Rightarrow> item" where
  "plusDelta v delta = (case v of Glyph g \<Rightarrow> Glyph (g + delta) | _ \<Rightarrow> Undef)"

text \<open>
  The lookup tables behind the references \<open>getLookupTables\<close> returns.
\<close>

definition lookupTablesAt :: "font \<Rightarrow> nat list \<Rightarrow> lookupTable list" where
  "lookupTablesAt font idxs =
     (case font of
        None \<Rightarrow> []
      | Some g \<Rightarrow> map (\<lambda>i. lookups g ! i) (filter (\<lambda>i. i < length (lookups g)) idxs))"

text \<open>
  \<open>getSingle\<close>, lines 59-81, for one subtable. The loop header declares \<open>g\<close>,
  \<open>sub\<close> and \<open>by\<close> once, before the first test: \<open>sub\<close> is \<open>glyphs[0]\<close> and \<open>by\<close>
  is computed from it, and every pass pushes that same pair.
\<close>

definition singleEntries :: "subtable \<Rightarrow> substitution list" where
  "singleEntries st =
     (let glyphs = expandCoverage (coverage st) in
      if substFormat st = 1 then
        (let delta = deltaGlyphId st;
             sub0 = glyphAt glyphs 0;
             by0 = plusDelta sub0 delta
         in replicate (length glyphs) \<lparr>sub = sub0, by = by0\<rparr>)
      else
        (let substitute = substitute st;
             sub0 = glyphAt glyphs 0;
             by0 = itemAt substitute 0
         in replicate (length glyphs) \<lparr>sub = sub0, by = by0\<rparr>))"

definition getSingle :: "font \<Rightarrow> string \<Rightarrow> string option \<Rightarrow> string option \<Rightarrow> substitution list" where
  "getSingle font feat scr language =
     (let lookupTables = lookupTablesAt font (snd (getLookupTables font scr language feat 1 False))
      in concat (map (\<lambda>lt. concat (map singleEntries (subtables lt))) lookupTables))"

text \<open>
  \<open>getMultiple\<close> and \<open>getAlternates\<close>, whose loop headers are built the same way.
\<close>

definition multipleEntries :: "subtable \<Rightarrow> substitution list" where
  "multipleEntries st =
     (let glyphs = expandCoverage (coverage st);
          sub0 = glyphAt glyphs 0;
          by0 = itemAt (sequences st) 0
      in replicate (length glyphs) \<lparr>sub = sub0, by = by0\<rparr>)"

definition getMultiple :: "font \<Rightarrow> string \<Rightarrow> string option \<Rightarrow> string option \<Rightarrow> substitution list" where
  "getMultiple font feat scr language =
     (let lookupTables = lookupTablesAt font (snd (getLookupTables font scr language feat 2 False))
      in concat (map (\<lambda>lt. concat (map multipleEntries (subtables lt))) lookupTables))"

definition alternateEntries :: "subtable \<Rightarrow> substitution list" where
  "alternateEntries st =
     (let glyphs = expandCoverage (coverage st);
          sub0 = glyphAt glyphs 0;
          by0 = itemAt (alternateSets st) 0
      in replicate (length glyphs) \<lparr>sub = sub0, by = by0\<rparr>)"

definition getAlternates :: "font \<Rightarrow> string \<Rightarrow> string option \<Rightarrow> string option \<Rightarrow> substitution list" where
  "getAlternates font feat scr language =
     (let lookupTables = lookupTablesAt font (snd (getLookupTables font scr language feat 3 False))
      in concat (map (\<lambda>lt. concat (map alternateEntries (subtables lt))) lookupTables))"

text \<open>
  \<open>getLigatures\<close> for one subtable: \<open>startGlyph\<close> and \<open>ligSet\<close> are read once, at
  index 0, and iterating an \<open>undefined\<close> \<open>ligSet\<close> throws.
\<close>

definition ligatureEntries :: "subtable \<Rightarrow> error + substitution list" where
  "ligatureEntries st =
     (case expandCoverage (coverage st) of
        [] \<Rightarrow> Inr []
      | startGlyph # rest \<Rightarrow>
          (case ligatureSets st of
             Some ligSet # sets \<Rightarrow>
               Inr (concat (replicate (Suc (length rest))
                      (map (\<lambda>l. \<lparr>sub = GlyphList (startGlyph # components l), by = ligGlyph l\<rparr>)
                         ligSet)))
           | _ \<Rightarrow> Inl (TypeError ''ligSet is not iterable'')))"

fun collect :: "('a \<Rightarrow> error + 'b list) \<Rightarrow> 'a list \<Rightarrow> error + 'b list" where
  "collect f [] = Inr []"
| "collect f (x # xs) =
     (case f x of
        Inl e \<Rightarrow> Inl e
      | Inr ys \<Rightarrow> (case collect f xs of Inl e \<Rightarrow> Inl e | Inr zs \<Rightarrow> Inr (ys @ zs)))"

definition getLigatures ::
  "font \<Rightarrow> string \<Rightarrow> string option \<Rightarrow> string option \<Rightarrow> error + substitution list" where
  "getLigatures font feat scr language =
     (let lookupTables = lookupTablesAt font (snd (getLookupTables font scr language feat 4 False))
      in collect (\<lambda>lt. collect ligatureEntries (subtables lt)) lookupTables)"

text \<open>
  \<open>xs.splice(pos, 0, x)\<close> inserts at \<open>pos\<close>, at the end when \<open>pos\<close> is past it;
  \<open>arr[i] = v\<close> overwrites, or extends the array with holes up to \<open>i\<close>.
\<close>

definition spliceAt :: "'a list \<Rightarrow> nat \<Rightarrow> 'a \<Rightarrow> 'a list" where
  "spliceAt xs pos x = take pos xs @ x # drop pos xs"

definition setItem :: "item list \<Rightarrow> nat \<Rightarrow> item \<Rightarrow> item list" where
  "setItem arr i v =
     (if i < length arr then arr[i := v] else arr @ replicate (i - length arr) Undef @ [v])"

text \<open>
  \<open>getSubstFormat\<close>: the first subtable in the format, else the default subtable
  pushed at the end. The result is the subtable list and the index of the subtable
  returned (\<open>None\<close> for \<open>undefined\<close>).
\<close>

definition getSubstFormat ::
  "subtable list \<Rightarrow> nat \<Rightarrow> subtable option \<Rightarrow> subtable list \<times> nat option" where
  "getSubstFormat subs fmt defaultSubtable =
     (case findIndex (\<lambda>st. substFormat st = fmt) subs of
        Some j \<Rightarrow> (subs, Some j)
      | None \<Rightarrow>
          (case defaultSubtable of
             Some d \<Rightarrow> (subs @ [d], Some (length subs))
           | None \<Rightarrow> (subs, None)))"

text \<open>
  The default subtables of the four mutations: the format, an empty format-1 coverage
  and an empty parallel array.
\<close>

definition emptySubtable :: "nat \<Rightarrow> subtable" where
  "emptySubtable fmt =
     \<lparr>substFormat = fmt, coverage = CoverageFormat1 [], deltaGlyphId = 0, substitute = [],
      sequences = [], alternateSets = [], ligatureSets = []\<rparr>"

text \<open>
  Lines 204-213, shared by \<open>addSingle\<close>, \<open>addMultiple\<close> and \<open>addAlternate\<close>: insert
  the glyph and a placeholder 0 at the insertion point when the glyph is not covered,
  then store \<open>by\<close> at the position.
\<close>

definition putEntry :: "int list \<Rightarrow> item list \<Rightarrow> int \<Rightarrow> item \<Rightarrow> int list \<times> item list" where
  "putEntry glyphs arr coverageGlyph v =
     (let pos = binSearch glyphs coverageGlyph in
      if pos < 0 then
        (let p = nat (- 1 - pos)
         in (spliceAt glyphs p coverageGlyph, setItem (spliceAt arr p (Glyph 0)) p v))
      else (glyphs, setItem arr (nat pos) v))"

text \<open>
  The tree after a mutation of subtable \<open>j\<close> of lookup table \<open>i\<close>.
\<close>

definition setSubtable :: "gsub \<Rightarrow> nat \<Rightarrow> subtable list \<Rightarrow> nat \<Rightarrow> subtable \<Rightarrow> font" where
  "setSubtable g i subs j st =
     Some (g\<lparr>lookups := (lookups g)[i := (lookups g ! i)\<lparr>subtables := subs[j := st]\<rparr>]\<rparr>)"

text \<open>
  The four mutations. The glyph \<open>sub\<close> is an integer (for a ligature, the first glyph
  and the remaining components); \<open>by\<close> is stored as it comes. A fault leaves the
  result \<open>Inl\<close>.
\<close>

definition addSingle ::
  "font \<Rightarrow> string \<Rightarrow> int \<Rightarrow> item \<Rightarrow> string option \<Rightarrow> string option \<Rightarrow> error + font" where
  "addSingle font feat coverageGlyph v scr language =
     (case getLookupTables font scr language feat 1 True of
        (Some g, i # rest) \<Rightarrow>
          (case getSubstFormat (subtables (lookups g ! i)) 2 (Some (emptySubtable 2)) of
             (subs, Some j) \<Rightarrow>
               (case coverage (subs ! j) of
                  CoverageFormat1 glyphs \<Rightarrow>
                    (let (glyphs', substitute') =
                           putEntry glyphs (substitute (subs ! j)) coverageGlyph v
                     in Inr (setSubtable g i subs j
                          ((subs ! j)\<lparr>coverage := CoverageFormat1 glyphs',
                                      substitute := substitute'\<rparr>)))
                | CoverageFormat2 ranges \<Rightarrow>
                    Inl (Error ''Single: unable to modify coverage table format 2''))
           | (subs, None) \<Rightarrow> Inl (TypeError ''subtable is undefined''))
      | _ \<Rightarrow> Inl (TypeError ''lookupTable is undefined''))"

definition addMultiple ::
  "font \<Rightarrow> string \<Rightarrow> int \<Rightarrow> item \<Rightarrow> string option \<Rightarrow> string option \<Rightarrow> error + font" where
  "addMultiple font feat coverageGlyph v scr language =
     (if \<not> (case v of GlyphList ids \<Rightarrow> length ids > 1 | _ \<Rightarrow> False) then
        Inl (Error (''Multiple: '' @ [CHR 0x22] @ ''by'' @ [CHR 0x22]
                    @ '' must be an array of two or more ids''))
      else
        (case getLookupTables font scr language feat 2 True of
           (Some g, i # rest) \<Rightarrow>
             (case getSubstFormat (subtables (lookups g ! i)) 1 (Some (emptySubtable 1)) of
                (subs, Some j) \<Rightarrow>
                  (case coverage (subs ! j) of
                     CoverageFormat1 glyphs \<Rightarrow>
                       (let (glyphs', sequences') =
                              putEntry glyphs (sequences (subs ! j)) coverageGlyph v
                        in Inr (setSubtable g i subs j
                             ((subs ! j)\<lparr>coverage := CoverageFormat1 glyphs',
                                         sequences := sequences'\<rparr>)))
                   | CoverageFormat2 ranges \<Rightarrow>
                       Inl (Error ''Multiple: unable to modify coverage table format 2''))
              | (subs, None) \<Rightarrow> Inl (TypeError ''subtable is undefined''))
         | _ \<Rightarrow> Inl (TypeError ''lookupTable is undefined'')))"

definition addAlternate ::
  "font \<Rightarrow> string \<Rightarrow> int \<Rightarrow> item \<Rightarrow> string option \<Rightarrow> string option \<Rightarrow> error + font" where
  "addAlternate font feat coverageGlyph v scr language =
     (case getLookupTables font scr language feat 3 True of
        (Some g, i # rest) \<Rightarrow>
          (case getSubstFormat (subtables (lookups g ! i)) 1 (Some (emptySubtable 1)) of
             (subs, Some j) \<Rightarrow>
               (case coverage (subs ! j) of
                  CoverageFormat1 glyphs \<Rightarrow>
                    (let (glyphs', alternateSets') =
                           putEntry glyphs (alternateSets (subs ! j)) coverageGlyph v
                     in Inr (setSubtable g i subs j
                          ((subs ! j)\<lparr>coverage := CoverageFormat1 glyphs',
                                      alternateSets := alternateSets'\<rparr>)))
                | CoverageFormat2 ranges \<Rightarrow>
                    Inl (Error ''Alternate: unable to modify coverage table format 2''))
           | (subs, None) \<Rightarrow> Inl (TypeError ''subtable is undefined''))
      | _ \<Rightarrow> Inl (TypeError ''lookupTable is undefined''))"

text \<open>
  \<open>equals\<close> of compare.js on two numbers. \<open>Object.is\<close> decides equal numbers; for
  two that differ, neither is an array, and the next test evaluates \<open>isObject(a)\<close>.
  compare.js has no import and no definition of \<open>isObject\<close>, so evaluating the name
  throws a \<open>ReferenceError\<close>.
\<close>

definition equals :: "int \<Rightarrow> int \<Rightarrow> error + bool" where
  "equals a b = (if a = b then Inr True else Inl (ReferenceError ''isObject is not defined''))"

text \<open>
  \<open>arraysEqual\<close> of compare.js on two arrays of numbers: \<open>false\<close> when the lengths
  differ, otherwise \<open>equals(a[i], b[i])\<close> for each index in turn, \<open>false\<close> at the
  first pair it denies, \<open>true\<close> after the last.
\<close>

fun arraysEqualLoop :: "(int \<times> int) list \<Rightarrow> error + bool" where
  "arraysEqualLoop [] = Inr True"
| "arraysEqualLoop ((x, y) # ps) =
     (case equals x y of
        Inl e \<Rightarrow> Inl e
      | Inr eq \<Rightarrow> if eq then arraysEqualLoop ps else Inr False)"

definition arraysEqual :: "int list \<Rightarrow> int list \<Rightarrow> error + bool" where
  "arraysEqual a b = (if length a \<noteq> length b then Inr False else arraysEqualLoop (zip a b))"

text \<open>
  Lines 330-333 of \<open>addLigature\<close>: the loop over the entries of the ligature set, which
  returns at the first entry whose components \<open>arraysEqual\<close> finds equal to the new
  ones. The result is whether the loop returned.
\<close>

fun ligatureExists :: "ligature list \<Rightarrow> int list \<Rightarrow> error + bool" where
  "ligatureExists [] ligComponents = Inr False"
| "ligatureExists (l # ls) ligComponents =
     (case arraysEqual (components l) ligComponents of
        Inl e \<Rightarrow> Inl e
      | Inr eq \<Rightarrow> if eq then Inr True else ligatureExists ls ligComponents)"

definition addLigature ::
  "font \<Rightarrow> string \<Rightarrow> int \<Rightarrow> int list \<Rightarrow> item \<Rightarrow> string option \<Rightarrow> string option \<Rightarrow> error + font" where
  "addLigature font feat coverageGlyph ligComponents v scr language =
     (case getLookupTables font scr language feat 4 True of
        (Some g, i # rest) \<Rightarrow>
          (let subs = (case subtables (lookups g ! i) of
                         [] \<Rightarrow> [emptySubtable 1]
                       | st # sts \<Rightarrow> st # sts);
               subtable = (case subtables (lookups g ! i) of
                             [] \<Rightarrow> emptySubtable 1
                           | st # sts \<Rightarrow> st);
               ligatureTable = \<lparr>ligGlyph = v, components = ligComponents\<rparr>
           in case coverage subtable of
                CoverageFormat1 glyphs \<Rightarrow>
                  (let pos = binSearch glyphs coverageGlyph in
                   if pos \<ge> 0 then
                     (if nat pos < length (ligatureSets subtable) then
                        (case ligatureSets subtable ! nat pos of
                           Some ligatureSet \<Rightarrow>
                             (case ligatureExists ligatureSet ligComponents of
                                Inl e \<Rightarrow> Inl e
                              | Inr found \<Rightarrow>
                                  if found then Inr (setSubtable g i subs 0 subtable)
                                  else Inr (setSubtable g i subs 0
                                         (subtable\<lparr>ligatureSets := (ligatureSets subtable)
                                            [nat pos := Some (ligatureSet @ [ligatureTable])]\<rparr>)))
                         | None \<Rightarrow> Inl (TypeError ''ligatureSet is not iterable''))
                      else Inl (TypeError ''ligatureSet is not iterable''))
                   else
                     (let p = nat (- 1 - pos)
                      in Inr (setSubtable g i subs 0
                           (subtable\<lparr>coverage := CoverageFormat1 (spliceAt glyphs p coverageGlyph),
                                      ligatureSets :=
                                        spliceAt (ligatureSets subtable) p (Some [ligatureTable])\<rparr>))))
              | CoverageFormat2 ranges \<Rightarrow>
                  Inl (Error ''Ligature: unable to modify coverage table format 2''))
      | _ \<Rightarrow> Inl (TypeError ''lookupTable is undefined''))"

text \<open>
  \<open>/ss\d\d/.test(feature)\<close>: somewhere in the tag, \<open>ss\<close> followed by two digits.
\<close>

definition isDigit :: "char \<Rightarrow> bool" where
  "isDigit c = (48 \<le> (of_char c :: nat) \<and> (of_char c :: nat) \<le> 57)"

fun stylisticSet :: "string \<Rightarrow> bool" where
  "stylisticSet (a # b # c # d # rest) =
     ((a = CHR ''s'' \<and> b = CHR ''s'' \<and> isDigit c \<and> isDigit d) \<or> stylisticSet (b # c # d # rest))"
| "stylisticSet s = False"

text \<open>
  \<open>getFeature\<close>: \<open>None\<close> is \<open>undefined\<close>.
\<close>

definition getFeature ::
  "font \<Rightarrow> string \<Rightarrow> string option \<Rightarrow> string option \<Rightarrow> error + substitution list option" where
  "getFeature font feat scr language =
     (if stylisticSet feat then Inr (Some (getSingle font feat scr language))
      else if feat = ''aalt'' \<or> feat = ''salt'' then
        Inr (Some (getSingle font feat scr language @ getAlternates font feat scr language))
      else if feat = ''dlig'' \<or> feat = ''liga'' \<or> feat = ''rlig'' then
        map_sum id Some (getLigatures font feat scr language)
      else if feat = ''ccmp'' then
        map_sum id (\<lambda>ligs. Some (getMultiple font feat scr language @ ligs))
          (getLigatures font feat scr language)
      else if feat = ''stch'' then Inr (Some (getMultiple font feat scr language))
      else Inr None)"

text \<open>
  \<open>add\<close> hands the substitution object to a mutation as it is. A mutation is modelled
  for the shape of \<open>sub\<close> it documents (an id, or for a ligature a non-empty array of
  ids); the result is \<open>None\<close> for any other shape, where the source searches the
  coverage for something that is not a glyph id.
\<close>

definition toSingle ::
  "font \<Rightarrow> string \<Rightarrow> substitution \<Rightarrow> string option \<Rightarrow> string option \<Rightarrow> (error + font) option" where
  "toSingle font feat s scr language =
     (case sub s of
        Glyph g \<Rightarrow> Some (addSingle font feat g (by s) scr language)
      | _ \<Rightarrow> None)"

definition toAlternate ::
  "font \<Rightarrow> string \<Rightarrow> substitution \<Rightarrow> string option \<Rightarrow> string option \<Rightarrow> (error + font) option" where
  "toAlternate font feat s scr language =
     (case sub s of
        Glyph g \<Rightarrow> Some (addAlternate font feat g (by s) scr language)
      | _ \<Rightarrow> None)"

definition toMultiple ::
  "font \<Rightarrow> string \<Rightarrow> substitution \<Rightarrow> string option \<Rightarrow> string option \<Rightarrow> (error + font) option" where
  "toMultiple font feat s scr language =
     (case sub s of
        Glyph g \<Rightarrow> Some (addMultiple font feat g (by s) scr language)
      | _ \<Rightarrow> None)"

definition toLigature ::
  "font \<Rightarrow> string \<Rightarrow> substitution \<Rightarrow> string option \<Rightarrow> string option \<Rightarrow> (error + font) option" where
  "toLigature font feat s scr language =
     (case sub s of
        GlyphList (g # comps) \<Rightarrow> Some (addLigature font feat g comps (by s) scr language)
      | _ \<Rightarrow> None)"

text \<open>
  \<open>add\<close> returns \<open>undefined\<close> on every path; its result here is the tree after the
  call, or the fault.
\<close>

definition add ::
  "font \<Rightarrow> string \<Rightarrow> substitution \<Rightarrow> string option \<Rightarrow> string option \<Rightarrow> (error + font) option" where
  "add font feat s scr language =
     (if stylisticSet feat then toSingle font feat s scr language
      else if feat = ''aalt'' \<or> feat = ''salt'' then
        (if (case by s of Glyph b \<Rightarrow> True | _ \<Rightarrow> False) then toSingle font feat s scr language
         else toAlternate font feat s scr language)
      else if feat = ''dlig'' \<or> feat = ''liga'' \<or> feat = ''rlig'' then
        toLigature font feat s scr language
      else if feat = ''ccmp'' then
        (if (case by s of GlyphList bs \<Rightarrow> True | _ \<Rightarrow> False) then toMultiple font feat s scr language
         else toLigature font feat s scr language)
      else Some (Inr font))"

section \<open>Type codec and table encoding (types.js)\<close>

text \<open>
  Modelled from the spec: the faults of the type codec of types.js, which is not among
  the sources: an unknown type tag is an \<open>UnsupportedType\<close> fault, a value outside its
  type's range fails fast (\<open>OutOfRange\<close>), and encoding something that is not a table
  as a table is \<open>NotATable\<close>.
\<close>

datatype fault = UnsupportedType string | OutOfRange string | NotATable

text \<open>
  Modelled from the spec: big-endian integers of types.js (all multi-byte integers are
  big-endian): the \<open>n\<close> low bytes of \<open>v\<close>, most significant first.
\<close>

fun bigEndian :: "nat \<Rightarrow> nat \<Rightarrow> nat list" where
  "bigEndian 0 v = []"
| "bigEndian (Suc n) v = bigEndian n (v div 256) @ [v mod 256]"

text \<open>
  Modelled from the spec: the integer primitives of types.js with their byte sizes,
  BYTE(1), USHORT/SHORT(2), UINT24(3), ULONG/LONG(4), FIXED(4), FWORD/UFWORD(2),
  LONGDATETIME(8), and the range of each. A FIXED value is the raw 16.16 integer.
\<close>

definition integerTypes :: "(string \<times> nat \<times> int \<times> int) list" where
  "integerTypes =
     [(''BYTE'', 1, 0, 255),
      (''USHORT'', 2, 0, 65535),
      (''SHORT'', 2, - 32768, 32767),
      (''UINT24'', 3, 0, 16777215),
      (''ULONG'', 4, 0, 4294967295),
      (''LONG'', 4, - 2147483648, 2147483647),
      (''FIXED'', 4, - 2147483648, 2147483647),
      (''FWORD'', 2, - 32768, 32767),
      (''UFWORD'', 2, 0, 65535),
      (''LONGDATETIME'', 8, - 9223372036854775808, 9223372036854775807)]"

text \<open>
  Modelled from the spec: encoding one integer of types.js: two's complement on \<open>n\<close>
  bytes, and a fault for a value outside the range or not a number.
\<close>

definition encodeInteger :: "nat \<Rightarrow> int \<Rightarrow> int \<Rightarrow> jsval \<Rightarrow> fault + nat list" where
  "encodeInteger n lo hi v =
     (case v of
        Number x \<Rightarrow>
          if lo \<le> x \<and> x \<le> hi then Inr (bigEndian n (nat (x mod 256 ^ n)))
          else Inl (OutOfRange ''value'')
      | _ \<Rightarrow> Inl (OutOfRange ''value''))"

text \<open>Modelled from the spec: the raw bytes of a string, for CHAR, TAG and CHARARRAY of types.js.\<close>

definition encodeChars :: "string \<Rightarrow> nat list" where
  "encodeChars s = map of_char s"

text \<open>
  Modelled from the spec: \<open>encode(type, value)\<close> of types.js for every primitive but
  TABLE: the integers, CHAR (one byte), TAG (four ASCII bytes) and CHARARRAY (the raw
  bytes); any other type tag is an \<open>UnsupportedType\<close> fault.
\<close>

definition encodePrimitive :: "string \<Rightarrow> jsval \<Rightarrow> fault + nat list" where
  "encodePrimitive ty v =
     (case map_of integerTypes ty of
        Some (n, lo, hi) \<Rightarrow> encodeInteger n lo hi v
      | None \<Rightarrow>
          if ty = ''CHAR'' then
            (case v of
               String s \<Rightarrow>
                 if length s = 1 then Inr (encodeChars s) else Inl (OutOfRange ''value'')
             | _ \<Rightarrow> Inl (OutOfRange ''value''))
          else if ty = ''TAG'' then
            (case v of
               String s \<Rightarrow>
                 if length s = 4 \<and> (\<forall>c \<in> set s. (of_char c :: nat) < 128)
                 then Inr (encodeChars s) else Inl (OutOfRange ''value'')
             | _ \<Rightarrow> Inl (OutOfRange ''value''))
          else if ty = ''CHARARRAY'' then
            (case v of String s \<Rightarrow> Inr (encodeChars s) | _ \<Rightarrow> Inl (OutOfRange ''value''))
          else Inl (UnsupportedType ty))"

text \<open>
  Modelled from the spec: \<open>sizeOf(type, value)\<close> of types.js for every primitive but
  TABLE: the byte size of the type, computed without producing bytes.
\<close>

definition sizeOfPrimitive :: "string \<Rightarrow> jsval \<Rightarrow> fault + nat" where
  "sizeOfPrimitive ty v =
     (case map_of integerTypes ty of
        Some (n, lo, hi) \<Rightarrow> Inr n
      | None \<Rightarrow>
          if ty = ''CHAR'' then Inr 1
          else if ty = ''TAG'' then Inr 4
          else if ty = ''CHARARRAY'' then
            (case v of String s \<Rightarrow> Inr (length s) | _ \<Rightarrow> Inl (OutOfRange ''value''))
          else Inl (UnsupportedType ty))"

text \<open>
  Modelled from the spec: what one field contributes in \<open>encode.TABLE\<close> of types.js: the
  bytes of a scalar, which go into the head, or the bytes of a nested table, which go
  after the head and leave a 2-byte offset in it.
\<close>

datatype part = Scalar "nat list" | Nested "nat list"

text \<open>
  Modelled from the spec: pass 1 of \<open>encode.TABLE\<close> of types.js, the head length: every
  scalar field's size plus a 2-byte offset placeholder for every nested table field.
\<close>

fun headLength :: "part list \<Rightarrow> nat" where
  "headLength [] = 0"
| "headLength (Scalar bs # ps) = length bs + headLength ps"
| "headLength (Nested bs # ps) = 2 + headLength ps"

text \<open>
  Modelled from the spec: pass 2 of \<open>encode.TABLE\<close> of types.js, the head: scalars in
  declaration order, and for each nested table its offset from the start of this table
  as a 16-bit unsigned integer; an offset that does not fit is a fault, not truncated.
\<close>

fun emitHead :: "nat \<Rightarrow> part list \<Rightarrow> fault + nat list" where
  "emitHead off [] = Inr []"
| "emitHead off (Scalar bs # ps) =
     (case emitHead off ps of Inl e \<Rightarrow> Inl e | Inr h \<Rightarrow> Inr (bs @ h))"
| "emitHead off (Nested bs # ps) =
     (if off < 65536 then
        (case emitHead (off + length bs) ps of
           Inl e \<Rightarrow> Inl e
         | Inr h \<Rightarrow> Inr (bigEndian 2 off @ h))
      else Inl (OutOfRange ''offset''))"

text \<open>
  Modelled from the spec: pass 2 of \<open>encode.TABLE\<close> of types.js, the tail: the encoded
  bytes of each nested table, in field order.
\<close>

fun nestedBytes :: "part list \<Rightarrow> nat list" where
  "nestedBytes [] = []"
| "nestedBytes (Scalar bs # ps) = nestedBytes ps"
| "nestedBytes (Nested bs # ps) = bs @ nestedBytes ps"

text \<open>Modelled from the spec: \<open>encode.TABLE\<close> of types.js, the head followed by the nested tables.\<close>

definition assemble :: "part list \<Rightarrow> fault + nat list" where
  "assemble parts =
     (case emitHead (headLength parts) parts of
        Inl e \<Rightarrow> Inl e
      | Inr h \<Rightarrow> Inr (h @ nestedBytes parts))"

text \<open>
  Modelled from the spec: \<open>encode.TABLE\<close> of types.js, which \<open>Table.encode\<close> calls: the
  fields of the table in declaration order, a TABLE field recursing into the nested
  table, whose offsets are relative to its own start.
\<close>

function encode_TABLE :: "jsval \<Rightarrow> fault + nat list"
  and encodeParts :: "field list \<Rightarrow> fault + part list" where
  "encode_TABLE t =
     (case t of
        Instance props \<Rightarrow>
          (case map_of props ''fields'' of
             Some (Fields fs) \<Rightarrow>
               (case encodeParts fs of Inl e \<Rightarrow> Inl e | Inr parts \<Rightarrow> assemble parts)
           | _ \<Rightarrow> Inl NotATable)
      | _ \<Rightarrow> Inl NotATable)"
| "encodeParts [] = Inr []"
| "encodeParts ((name, ty, v) # fs) =
     (case (if ty = ''TABLE'' then map_sum id Nested (encode_TABLE v)
            else map_sum id Scalar (encodePrimitive ty v)) of
        Inl e \<Rightarrow> Inl e
      | Inr p \<Rightarrow> (case encodeParts fs of Inl e \<Rightarrow> Inl e | Inr ps \<Rightarrow> Inr (p # ps)))"
  by pat_completeness auto
termination
proof -
  have smaller: "size v < size_list (size_prod (\<lambda>x. 0) size) ps"
    if "map_of ps k = Some v" for ps :: props and k v
    using that by (induction ps) (auto split: if_splits)
  show ?thesis
    apply (relation "measure (\<lambda>x. case x of Inl t \<Rightarrow> size t
              | Inr fs \<Rightarrow> size_list (size_prod (\<lambda>x. 0) (size_prod (\<lambda>x. 0) size)) fs)")
       apply simp
      apply (auto dest!: smaller)
    done
qed

text \<open>
  Modelled from the spec: \<open>sizeOf.TABLE\<close> of types.js, which \<open>Table.sizeOf\<close> calls: the
  same computation without materializing bytes, the size of every scalar field, and
  for every nested table its 2-byte offset plus its own size.
\<close>

function sizeOf_TABLE :: "jsval \<Rightarrow> fault + nat"
  and sizeOfFields :: "field list \<Rightarrow> fault + nat" where
  "sizeOf_TABLE t =
     (case t of
        Instance props \<Rightarrow>
          (case map_of props ''fields'' of
             Some (Fields fs) \<Rightarrow> sizeOfFields fs
           | _ \<Rightarrow> Inl NotATable)
      | _ \<Rightarrow> Inl NotATable)"
| "sizeOfFields [] = Inr 0"
| "sizeOfFields ((name, ty, v) # fs) =
     (case (if ty = ''TABLE'' then map_sum id (\<lambda>n. n + 2) (sizeOf_TABLE v)
            else sizeOfPrimitive ty v) of
        Inl e \<Rightarrow> Inl e
      | Inr n \<Rightarrow> (case sizeOfFields fs of Inl e \<Rightarrow> Inl e | Inr m \<Rightarrow> Inr (n + m)))"
  by pat_completeness auto
termination
proof -
  have smaller: "size v < size_list (size_prod (\<lambda>x. 0) size) ps"
    if "map_of ps k = Some v" for ps :: props and k v
    using that by (induction ps) (auto split: if_splits)
  show ?thesis
    apply (relation "measure (\<lambda>x. case x of Inl t \<Rightarrow> size t
              | Inr fs \<Rightarrow> size_list (size_prod (\<lambda>x. 0) (size_prod (\<lambda>x. 0) size)) fs)")
       apply simp
      apply (auto dest!: smaller)
    done
qed

declare encode_TABLE.simps [simp del] sizeOf_TABLE.simps [simp del]

text \<open>Two constructed tables, the second nesting the first.\<close>

definition tagExample :: jsval where
  "tagExample = newTable ''tags'' [(''tag'', ''TAG'', String ''DFLT'')]"

definition maxpExample :: jsval where
  "maxpExample =
     newTable ''maxp''
       [(''version'', ''FIXED'', Number 20480),
        (''numGlyphs'', ''USHORT'', Number 3),
        (''sub'', ''TABLE'', tagExample),
        (''n'', ''SHORT'', Number (- 2))]"

section \<open>Notions used to state the properties\<close>

text \<open>
  The tree \<open>getLookupTables\<close> with \<open>create\<close> makes of a font without a GSUB tree, for a
  feature and a lookup type, with the given subtables in its one lookup table.
\<close>

definition freshTree :: "string \<Rightarrow> nat \<Rightarrow> subtable list \<Rightarrow> gsub" where
  "freshTree feat ltype subs =
     \<lparr>version = 1,
      scripts = [\<lparr>scriptRecord.tag = ''DFLT'',
                  script = \<lparr>defaultLangSys =
                              Some \<lparr>reserved = 0, reqFeatureIndex = 65535, featureIndexes = [0]\<rparr>,
                            langSysRecords = []\<rparr>\<rparr>],
      features = [\<lparr>featureRecord.tag = feat,
                   feature = \<lparr>featureParams = 0, lookupListIndexes = [0]\<rparr>\<rparr>],
      lookups = [\<lparr>lookupType = ltype, lookupFlag = 0, subtables = subs\<rparr>]\<rparr>"

text \<open>
  The format-1 (delta) single-substitution subtables of lookup table \<open>i\<close> of a font.
\<close>

definition deltaSingles :: "font \<Rightarrow> nat \<Rightarrow> subtable list" where
  "deltaSingles font i =
     (case font of
        None \<Rightarrow> []
      | Some g \<Rightarrow>
          if i < length (lookups g) \<and> lookupType (lookups g ! i) = 1
          then filter (\<lambda>st. substFormat st = 1) (subtables (lookups g ! i))
          else [])"

text \<open>
  A fresh lookup table: the given type, flag 0, no subtables.
\<close>

definition freshLookup :: "nat \<Rightarrow> lookupTable" where
  "freshLookup ltype = \<lparr>lookupType = ltype, lookupFlag = 0, subtables = []\<rparr>"

text \<open>
  Subtable \<open>j\<close> of lookup table \<open>i\<close> of a font, when there is one.
\<close>

definition subtableAt :: "font \<Rightarrow> nat \<Rightarrow> nat \<Rightarrow> subtable option" where
  "subtableAt font i j =
     (case font of
        None \<Rightarrow> None
      | Some g \<Rightarrow>
          if i < length (lookups g) \<and> j < length (subtables (lookups g ! i))
          then Some (subtables (lookups g ! i) ! j) else None)"

text \<open>
  The coverage invariant of a subtable: a format-1 coverage whose glyph list is strictly
  ascending (so without duplicates), with a parallel array of \<open>n\<close> entries.
\<close>

definition ascending :: "subtable \<Rightarrow> nat \<Rightarrow> bool" where
  "ascending st n =
     (case coverage st of
        CoverageFormat1 glyphs \<Rightarrow> sorted_wrt (<) glyphs \<and> n = length glyphs
      | CoverageFormat2 ranges \<Rightarrow> False)"

text \<open>
  A ligature subtable with the given coverage glyphs and ligature sets.
\<close>

definition ligatureSubtable :: "int list \<Rightarrow> ligature list option list \<Rightarrow> subtable" where
  "ligatureSubtable glyphs sets = (emptySubtable 1)\<lparr>coverage := CoverageFormat1 glyphs, ligatureSets := sets\<rparr>"

text \<open>
  The four mutations, as values, to state what holds of all of them: \<open>mutate\<close> calls
  the mutation, \<open>mutationType\<close> is the lookup type it asks \<open>getLookupTables\<close> for,
  \<open>target\<close> is the subtable it selects in the lookup table (with the subtable list as
  the selection leaves it), \<open>parallelArray\<close> the length of the array it keeps parallel
  to the coverage.
\<close>

datatype mutation =
    AddSingle int item
  | AddMultiple int item
  | AddAlternate int item
  | AddLigature int "int list" item

fun mutate ::
  "font \<Rightarrow> string \<Rightarrow> mutation \<Rightarrow> string option \<Rightarrow> string option \<Rightarrow> error + font" where
  "mutate font feat (AddSingle g v) scr language = addSingle font feat g v scr language"
| "mutate font feat (AddMultiple g v) scr language = addMultiple font feat g v scr language"
| "mutate font feat (AddAlternate g v) scr language = addAlternate font feat g v scr language"
| "mutate font feat (AddLigature g comps v) scr language =
     addLigature font feat g comps v scr language"

fun mutationType :: "mutation \<Rightarrow> nat" where
  "mutationType (AddSingle g v) = 1"
| "mutationType (AddMultiple g v) = 2"
| "mutationType (AddAlternate g v) = 3"
| "mutationType (AddLigature g comps v) = 4"

fun target :: "mutation \<Rightarrow> subtable list \<Rightarrow> subtable list \<times> nat option" where
  "target (AddSingle g v) subs = getSubstFormat subs 2 (Some (emptySubtable 2))"
| "target (AddMultiple g v) subs = getSubstFormat subs 1 (Some (emptySubtable 1))"
| "target (AddAlternate g v) subs = getSubstFormat subs 1 (Some (emptySubtable 1))"
| "target (AddLigature g comps v) subs =
     (case subs of [] \<Rightarrow> ([emptySubtable 1], Some 0) | st # sts \<Rightarrow> (st # sts, Some 0))"

fun parallelArray :: "mutation \<Rightarrow> subtable \<Rightarrow> nat" where
  "parallelArray (AddSingle g v) st = length (substitute st)"
| "parallelArray (AddMultiple g v) st = length (sequences st)"
| "parallelArray (AddAlternate g v) st = length (alternateSets st)"
| "parallelArray (AddLigature g comps v) st = length (ligatureSets st)"

text \<open>
  Example subtables: a format-1 single substitution of glyphs 3..5 with delta 4, a
  format-2 one of glyphs 3 and 5, a multiple and an alternate substitution of the same
  glyphs, a format-2 single substitution of glyph 5, and two ligatures.
\<close>

definition deltaExample :: subtable where
  "deltaExample =
     (emptySubtable 1)\<lparr>coverage := CoverageFormat2 [\<lparr>start = 3, rangeEnd = 5, index = 0\<rparr>],
                        deltaGlyphId := 4\<rparr>"

definition arrayExample :: subtable where
  "arrayExample =
     (emptySubtable 2)\<lparr>coverage := CoverageFormat1 [3, 5], substitute := [Glyph 7, Glyph 9]\<rparr>"

definition sequenceExample :: subtable where
  "sequenceExample =
     (emptySubtable 1)\<lparr>coverage := CoverageFormat1 [3, 5],
                        sequences := [GlyphList [7, 8], GlyphList [9, 10]]\<rparr>"

definition alternateExample :: subtable where
  "alternateExample =
     (emptySubtable 1)\<lparr>coverage := CoverageFormat1 [3, 5],
                        alternateSets := [GlyphList [7, 8], GlyphList [9, 10]]\<rparr>"

definition fiveNine :: subtable where
  "fiveNine = (emptySubtable 2)\<lparr>coverage := CoverageFormat1 [5], substitute := [Glyph 9]\<rparr>"

definition ligature50 :: ligature where
  "ligature50 = \<lparr>ligGlyph = Glyph 50, components = [11]\<rparr>"

definition ligature51 :: ligature where
  "ligature51 = \<lparr>ligGlyph = Glyph 51, components = [12]\<rparr>"

text \<open>
  The features of a font list only lookup tables that exist.
\<close>

definition lookupIndexesInRange :: "font \<Rightarrow> bool" where
  "lookupIndexesInRange font =
     (case font of
        None \<Rightarrow> True
      | Some g \<Rightarrow>
          (\<forall>fr \<in> set (features g).
             \<forall>k \<in> set (lookupListIndexes (featureRecord.feature fr)). k < length (lookups g)))"

text \<open>
  A font has no single substitution for a feature: the lookup tables of type 1 the
  feature resolves to in the script and language, if any, are listed once each and have
  no subtables.
\<close>

definition noSingles :: "font \<Rightarrow> string \<Rightarrow> string option \<Rightarrow> string option \<Rightarrow> bool" where
  "noSingles font feat scr language =
     (let idxs = snd (getLookupTables font scr language feat 1 False)
      in distinct idxs \<and> (\<forall>lt \<in> set (lookupTablesAt font idxs). subtables lt = []))"

section \<open>Properties of the Table constructor\<close>

lemma map_of_setProp: "map_of (setProp k v this) = (map_of this)(k \<mapsto> v)"
  by (simp add: setProp_def update_conv')

lemma map_of_seedFields:
  "map_of (seedFields this fs) =
     map_of (rev (map (\<lambda>f. (fieldName f, fieldValue f)) fs) @ this)"
proof (induction fs arbitrary: this)
  case Nil
  then show ?case by (simp add: seedFields_def)
next
  case (Cons f fs)
  have "map_of (seedFields this (f # fs)) =
        map_of (seedFields (setProp (fieldName f) (fieldValue f) this) fs)"
    by (simp add: seedFields_def)
  also have "\<dots> = map_of (rev (map (\<lambda>f. (fieldName f, fieldValue f)) fs)
                        @ setProp (fieldName f) (fieldValue f) this)"
    by (rule Cons.IH)
  also have "\<dots> = map_of (rev (map (\<lambda>f. (fieldName f, fieldValue f)) (f # fs)) @ this)"
    by (simp add: map_of_setProp map_add_def fun_eq_iff split: option.splits)
  finally show ?case .
qed

lemma overlayOptions_Cons:
  "overlayOptions proto this ((k, v) # opts) =
     overlayOptions proto (if getProp proto this k \<noteq> Undefined then setProp k v this else this) opts"
  by (simp add: overlayOptions_def)

lemma overlayOptions_other:
  "k \<notin> fst ` set opts \<Longrightarrow> map_of (overlayOptions proto this opts) k = map_of this k"
proof (induction opts arbitrary: this)
  case Nil
  then show ?case by (simp add: overlayOptions_def)
next
  case (Cons p opts)
  obtain k' v' where p: "p = (k', v')" by (cases p)
  from Cons.prems p have ne: "k' \<noteq> k" and notin: "k \<notin> fst ` set opts" by auto
  show ?case
    unfolding p overlayOptions_Cons
    using ne by (simp add: Cons.IH [OF notin] map_of_setProp)
qed

lemma overlayOptions_key:
  assumes "distinct (map fst opts)" and "map_of opts k = Some v"
  shows "map_of (overlayOptions proto this opts) k =
           (if getProp proto this k \<noteq> Undefined then Some v else map_of this k)"
  using assms
proof (induction opts arbitrary: this)
  case Nil
  then show ?case by simp
next
  case (Cons p opts)
  obtain k' v' where p: "p = (k', v')" by (cases p)
  show ?case
  proof (cases "k' = k")
    case True
    with Cons.prems p have v: "v' = v" and notin: "k \<notin> fst ` set opts" by auto
    show ?thesis
      unfolding p overlayOptions_Cons
      by (simp add: True v overlayOptions_other [OF notin] map_of_setProp)
  next
    case False
    with Cons.prems p have d: "distinct (map fst opts)" and m: "map_of opts k = Some v"
      by auto
    have same: "getProp proto (setProp k' v' this) k = getProp proto this k"
      using False by (simp add: getProp_def map_of_setProp)
    have same': "map_of (setProp k' v' this) k = map_of this k"
      using False by (simp add: map_of_setProp)
    show ?thesis
      unfolding p overlayOptions_Cons
      by (simp add: Cons.IH [OF d m] same same')
  qed
qed

text \<open>
  C9 (as amended). The fields seed the own properties, a later field of the same name
  winning, and \<open>tableName\<close> and \<open>fields\<close> are set after them. Then an option key
  \<open>k\<close> is assigned exactly when \<open>this[k]\<close>, own or inherited, is not \<open>undefined\<close>
  at that point; the instance is left as it was for a key with no same-named property
  and for a key whose property holds \<open>undefined\<close>, and for every name that is not an
  option key.
\<close>

theorem Table_constructor_overlay:
  assumes "distinct (map fst opts)"
  shows "map_of (seeded tableName (Some fs)) =
           (map_of (rev (map (\<lambda>f. (fieldName f, fieldValue f)) fs)))
             (''tableName'' \<mapsto> String tableName, ''fields'' \<mapsto> Fields fs)
       \<and> map_of (Table proto tableName flds (Some opts)) k =
           (case map_of opts k of
              None \<Rightarrow> map_of (seeded tableName flds) k
            | Some v \<Rightarrow>
                if getProp proto (seeded tableName flds) k \<noteq> Undefined then Some v
                else map_of (seeded tableName flds) k)"
proof
  show "map_of (seeded tableName (Some fs)) =
           (map_of (rev (map (\<lambda>f. (fieldName f, fieldValue f)) fs)))
             (''tableName'' \<mapsto> String tableName, ''fields'' \<mapsto> Fields fs)"
    by (simp add: seeded_def map_of_setProp map_of_seedFields)
next
  show "map_of (Table proto tableName flds (Some opts)) k =
           (case map_of opts k of
              None \<Rightarrow> map_of (seeded tableName flds) k
            | Some v \<Rightarrow>
                if getProp proto (seeded tableName flds) k \<noteq> Undefined then Some v
                else map_of (seeded tableName flds) k)"
  proof (cases "map_of opts k")
    case None
    then have "k \<notin> fst ` set opts" by (simp add: map_of_eq_None_iff)
    then show ?thesis
      by (simp add: Table_def None overlayOptions_other)
  next
    case (Some v)
    then show ?thesis
      by (simp add: Table_def overlayOptions_key [OF assms Some])
  qed
qed

theorem Table_constructor_overlay_witness:
  "distinct (map fst [(''a'', Number 7), (''b'', Number 8), (''c'', Number 9)])
   \<and> map_of (Table Table_prototype ''t''
               (Some [(''a'', ''USHORT'', Number 1), (''b'', ''USHORT'', Undefined)])
               (Some [(''a'', Number 7), (''b'', Number 8), (''c'', Number 9)])) ''a''
       = Some (Number 7)"
proof -
  have d: "distinct (map fst [(''a'', Number 7), (''b'', Number 8), (''c'', Number 9)])"
    by simp
  have s: "map_of (seeded ''t'' (Some [(''a'', ''USHORT'', Number 1), (''b'', ''USHORT'', Undefined)])) ''a''
             = Some (Number 1)"
    by (simp add: seeded_def seedFields_def setProp_def fieldName_def fieldValue_def)
  from Table_constructor_overlay [OF d, where tableName = "''t''" and fs = "[]"
      and proto = Table_prototype and k = "''a''"
      and flds = "Some [(''a'', ''USHORT'', Number 1), (''b'', ''USHORT'', Undefined)]"]
  show ?thesis using d s by (simp add: getProp_def)
qed

text \<open>
  C9 as stated fails where a field's value is \<open>undefined\<close>: the property \<open>a\<close> is
  present on the instance after seeding, the options carry the same name, and the
  property is not replaced.
\<close>

theorem Table_constructor_undefined_counterexample:
  "map_of (seeded ''t'' (Some [(''a'', ''USHORT'', Undefined)])) ''a'' = Some Undefined
   \<and> map_of (Table Table_prototype ''t'' (Some [(''a'', ''USHORT'', Undefined)])
               (Some [(''a'', Number 1)])) ''a'' \<noteq> Some (Number 1)"
  by (simp add: Table_def seeded_def seedFields_def setProp_def fieldName_def fieldValue_def
      overlayOptions_def getProp_def)

section \<open>Properties of ScriptList\<close>

lemma forEachIndex_total:
  "(\<And>r i. \<exists>b. cb r i = Inr b) \<Longrightarrow> \<exists>bs. forEachIndex cb i rs = Inr bs"
proof (induction rs arbitrary: i)
  case Nil
  then show ?case by simp
next
  case (Cons r rs)
  from Cons.prems obtain b where b: "cb r i = Inr b" by blast
  from Cons.IH [OF Cons.prems] obtain bs where "forEachIndex cb (Suc i) rs = Inr bs" by blast
  with b show ?case by simp
qed

lemma langSysList_total: "\<exists>fs. recordList ''langSys'' rs langSysFields = Inr fs"
proof -
  have "\<exists>bs. forEachIndex langSysFields 0 rs = Inr bs"
    by (rule forEachIndex_total) (simp add: langSysFields_def Let_def)
  then show ?thesis by (auto simp: recordList_def)
qed

lemma scriptRecordFields_None:
  "defaultLangSys (script r) = None \<Longrightarrow>
   scriptRecordFields r i =
     Inl (Error (''Unable to write GSUB: script '' @ scriptRecord.tag r
                 @ '' has no default language system.''))"
  by (simp add: scriptRecordFields_def)

lemma scriptRecordFields_Some:
  "defaultLangSys (script r) \<noteq> None \<Longrightarrow> \<exists>fs. scriptRecordFields r i = Inr fs"
  using langSysList_total [of "langSysRecords (script r)"]
  by (auto simp: scriptRecordFields_def Let_def)

lemma forEachIndex_scriptRecordFields:
  "forEachIndex scriptRecordFields i rs =
     (case find (\<lambda>r. defaultLangSys (script r) = None) rs of
        Some r \<Rightarrow> Inl (Error (''Unable to write GSUB: script '' @ scriptRecord.tag r
                               @ '' has no default language system.''))
      | None \<Rightarrow> forEachIndex scriptRecordFields i rs)
   \<and> (find (\<lambda>r. defaultLangSys (script r) = None) rs = None
        \<longrightarrow> (\<exists>fss. forEachIndex scriptRecordFields i rs = Inr fss))"
proof (induction rs arbitrary: i)
  case Nil
  then show ?case by simp
next
  case (Cons r rs)
  show ?case
  proof (cases "defaultLangSys (script r) = None")
    case True
    then show ?thesis by (simp add: scriptRecordFields_None)
  next
    case False
    from scriptRecordFields_Some [OF False] obtain fs where fs: "scriptRecordFields r i = Inr fs"
      by blast
    from Cons.IH [of "Suc i"] False fs show ?thesis
      by (auto split: option.splits)
  qed
qed

text \<open>
  C8. Constructing a ScriptList fails at the first script record without a default
  language system, with an Error whose message names that record's tag; it succeeds
  exactly when every script record carries a default language system.
\<close>

theorem ScriptList_defaultLangSys:
  "(case find (\<lambda>r. defaultLangSys (script r) = None) scriptListTable of
      Some r \<Rightarrow>
        ScriptList scriptListTable =
          Inl (Error (''Unable to write GSUB: script '' @ scriptRecord.tag r
                      @ '' has no default language system.''))
    | None \<Rightarrow> (\<exists>t. ScriptList scriptListTable = Inr t))
   \<and> ((\<exists>t. ScriptList scriptListTable = Inr t)
        \<longleftrightarrow> (\<forall>r \<in> set scriptListTable. defaultLangSys (script r) \<noteq> None))"
proof (cases "find (\<lambda>r. defaultLangSys (script r) = None) scriptListTable")
  case None
  with forEachIndex_scriptRecordFields [of 0 scriptListTable]
  obtain fss where "forEachIndex scriptRecordFields 0 scriptListTable = Inr fss" by auto
  then have ok: "\<exists>t. ScriptList scriptListTable = Inr t"
    by (simp add: ScriptList_def recordList_def)
  from None have "\<forall>r \<in> set scriptListTable. defaultLangSys (script r) \<noteq> None"
    by (simp add: find_None_iff)
  with ok None show ?thesis by simp
next
  case (Some r)
  with forEachIndex_scriptRecordFields [of 0 scriptListTable]
  have bad: "ScriptList scriptListTable =
          Inl (Error (''Unable to write GSUB: script '' @ scriptRecord.tag r
                      @ '' has no default language system.''))"
    by (simp add: ScriptList_def recordList_def)
  from Some have "r \<in> set scriptListTable" and "defaultLangSys (script r) = None"
    by (auto simp: find_Some_iff)
  with bad Some show ?thesis by auto
qed

theorem ScriptList_defaultLangSys_witness:
  "ScriptList
     [\<lparr>scriptRecord.tag = ''DFLT'',
       script = \<lparr>defaultLangSys = Some \<lparr>reserved = 0, reqFeatureIndex = 65535, featureIndexes = []\<rparr>,
                 langSysRecords = []\<rparr>\<rparr>,
      \<lparr>scriptRecord.tag = ''latn'', script = \<lparr>defaultLangSys = None, langSysRecords = []\<rparr>\<rparr>]
   = Inl (Error ''Unable to write GSUB: script latn has no default language system.'')"
  using ScriptList_defaultLangSys [of
     "[\<lparr>scriptRecord.tag = ''DFLT'',
       script = \<lparr>defaultLangSys = Some \<lparr>reserved = 0, reqFeatureIndex = 65535, featureIndexes = []\<rparr>,
                 langSysRecords = []\<rparr>\<rparr>,
      \<lparr>scriptRecord.tag = ''latn'', script = \<lparr>defaultLangSys = None, langSysRecords = []\<rparr>\<rparr>]"]
  by simp

section \<open>Encoded length and sizeOf\<close>

lemma length_bigEndian: "length (bigEndian n v) = n"
  by (induction n v rule: bigEndian.induct) auto

lemma length_emitHead: "emitHead off ps = Inr h \<Longrightarrow> length h = headLength ps"
  by (induction off ps arbitrary: h rule: emitHead.induct)
     (auto simp: length_bigEndian split: sum.splits if_splits)

lemma length_assemble:
  "assemble ps = Inr bs \<Longrightarrow> length bs = headLength ps + length (nestedBytes ps)"
  by (auto simp: assemble_def length_emitHead split: sum.splits)

lemma length_encodeInteger: "encodeInteger n lo hi v = Inr bs \<Longrightarrow> length bs = n"
  by (auto simp: encodeInteger_def length_bigEndian split: jsval.splits if_splits)

lemma sizeOfPrimitive_encodePrimitive:
  assumes "encodePrimitive ty v = Inr bs"
  shows "sizeOfPrimitive ty v = Inr (length bs)"
proof (cases "map_of integerTypes ty")
  case (Some r)
  obtain n lo hi where r: "r = (n, lo, hi)" by (cases r)
  from assms Some r have "encodeInteger n lo hi v = Inr bs"
    by (simp add: encodePrimitive_def)
  from length_encodeInteger [OF this] Some r show ?thesis
    by (simp add: sizeOfPrimitive_def)
next
  case None
  with assms show ?thesis
    by (auto simp: encodePrimitive_def sizeOfPrimitive_def encodeChars_def
          split: if_splits jsval.splits)
qed

lemma sizeOf_encode_mutual:
  "(\<forall>bs. encode_TABLE t = Inr bs \<longrightarrow> sizeOf_TABLE t = Inr (length bs))"
  "(\<forall>ps. encodeParts fs = Inr ps \<longrightarrow>
      sizeOfFields fs = Inr (headLength ps + length (nestedBytes ps)))"
proof (induction t and fs rule: encode_TABLE_encodeParts.induct)
  case (1 t)
  show ?case
  proof (intro allI impI)
    fix bs assume e: "encode_TABLE t = Inr bs"
    then obtain props fs ps where t: "t = Instance props"
      and f: "map_of props ''fields'' = Some (Fields fs)"
      and p: "encodeParts fs = Inr ps" and a: "assemble ps = Inr bs"
      by (auto simp: encode_TABLE.simps split: jsval.splits option.splits sum.splits)
    from "1.IH" [OF t f] p
    have "sizeOfFields fs = Inr (headLength ps + length (nestedBytes ps))" by blast
    with t f length_assemble [OF a] show "sizeOf_TABLE t = Inr (length bs)"
      by (simp add: sizeOf_TABLE.simps)
  qed
next
  case 2
  then show ?case by simp
next
  case (3 name ty v fs)
  show ?case
  proof (intro allI impI)
    fix ps assume e: "encodeParts ((name, ty, v) # fs) = Inr ps"
    show "sizeOfFields ((name, ty, v) # fs) = Inr (headLength ps + length (nestedBytes ps))"
    proof (cases "ty = ''TABLE''")
      case True
      with e obtain bs ps' where b: "encode_TABLE v = Inr bs"
        and p': "encodeParts fs = Inr ps'" and ps: "ps = Nested bs # ps'"
        by (auto split: sum.splits simp: map_sum_def)
      from "3.IH"(1) [OF True] b have "sizeOf_TABLE v = Inr (length bs)" by blast
      moreover from "3.IH"(2) p' True b
      have "sizeOfFields fs = Inr (headLength ps' + length (nestedBytes ps'))"
        by (auto simp: map_sum_def)
      ultimately show ?thesis using True ps by simp
    next
      case False
      with e obtain bs ps' where b: "encodePrimitive ty v = Inr bs"
        and p': "encodeParts fs = Inr ps'" and ps: "ps = Scalar bs # ps'"
        by (auto split: sum.splits simp: map_sum_def)
      from "3.IH"(2) p' False b
      have "sizeOfFields fs = Inr (headLength ps' + length (nestedBytes ps'))"
        by (auto simp: map_sum_def)
      with sizeOfPrimitive_encodePrimitive [OF b] False ps show ?thesis by simp
    qed
  qed
qed

text \<open>
  C2. For every table, and so for every constructed one: when \<open>encode\<close> returns a byte
  array, \<open>sizeOf\<close> returns its length.
\<close>

theorem sizeOf_encode:
  "encode_TABLE t = Inr bytes \<Longrightarrow> sizeOf_TABLE t = Inr (length bytes)"
  using sizeOf_encode_mutual(1) by blast

lemma bigEndian_numeral:
  "bigEndian (numeral k) v = bigEndian (pred_numeral k) (v div 256) @ [v mod 256]"
  by (subst numeral_eq_Suc) simp

lemma encode_examples:
  "encodePrimitive ''TAG'' (String ''DFLT'') = Inr [68, 70, 76, 84]"
  "encodePrimitive ''FIXED'' (Number 20480) = Inr [0, 0, 80, 0]"
  "encodePrimitive ''USHORT'' (Number 3) = Inr [0, 3]"
  "encodePrimitive ''SHORT'' (Number (- 2)) = Inr [255, 254]"
  by (simp_all add: encodePrimitive_def integerTypes_def encodeChars_def encodeInteger_def
      bigEndian_numeral)

lemma encode_tagExample: "encode_TABLE tagExample = Inr [68, 70, 76, 84]"
  by (simp add: tagExample_def newTable_def Table_def seeded_def seedFields_def setProp_def
      fieldName_def fieldValue_def encode_TABLE.simps encode_examples assemble_def)

lemma encode_maxpExample:
  "encode_TABLE maxpExample = Inr [0, 0, 80, 0, 0, 3, 0, 10, 255, 254, 68, 70, 76, 84]"
  apply (subst encode_TABLE.simps)
  apply (simp add: maxpExample_def newTable_def Table_def seeded_def seedFields_def setProp_def
      fieldName_def fieldValue_def encode_examples encode_tagExample
      assemble_def bigEndian_numeral)
  done

theorem sizeOf_encode_witness:
  "encode_TABLE maxpExample = Inr [0, 0, 80, 0, 0, 3, 0, 10, 255, 254, 68, 70, 76, 84]
   \<and> sizeOf_TABLE maxpExample = Inr 14"
  using sizeOf_encode [OF encode_maxpExample] encode_maxpExample by simp

section \<open>Properties of layout resolution and of the mutations\<close>

lemma binSearch_Nil: "binSearch [] v = - 1"
  by (simp add: binSearch_def binSearchLoop.simps)


lemmas layout_defs =
  ensure_def scriptName_def ensureScript_def findScript_def mapScript_def ensureLangSysIn_def
  findLangSys_def isDefaultLanguage_def ensureFeature_def findFeature_def newLangSys_def
  ensureLookup_def lookupsOfType_def resolve_def locate_def ensurePath_def

lemma ensure_createDefaultTable:
  "ensure createDefaultTable None None feat ltype = freshTree feat ltype []"
  by (simp add: layout_defs createDefaultTable_def freshTree_def Let_def)

lemma resolve_freshTree: "resolve (freshTree feat ltype subs) None None feat ltype = [0]"
  by (simp add: layout_defs freshTree_def)

lemma ensure_freshTree: "ensure (freshTree feat ltype subs) None None feat ltype = freshTree feat ltype subs"
  by (simp add: layout_defs freshTree_def Let_def)

lemma getLookupTables_None:
  "getLookupTables None None None feat ltype True = (Some (freshTree feat ltype []), [0])"
  by (simp add: getLookupTables_def ensure_createDefaultTable resolve_freshTree)

lemma getLookupTables_freshTree:
  "getLookupTables (Some (freshTree feat ltype subs)) None None feat ltype create
     = (Some (freshTree feat ltype subs), [0])"
  by (simp add: getLookupTables_def ensure_freshTree resolve_freshTree)

lemma lookups_freshTree [simp]:
  "lookups (freshTree feat ltype subs) = [\<lparr>lookupType = ltype, lookupFlag = 0, subtables = subs\<rparr>]"
  by (simp add: freshTree_def)

lemma setSubtable_freshTree:
  "setSubtable (freshTree feat ltype subs) 0 subs' j st = Some (freshTree feat ltype (subs'[j := st]))"
  by (simp add: setSubtable_def freshTree_def)

lemma addMultiple_fresh:
  "addMultiple None ''stch'' 1 (GlyphList [2, 3]) None None
     = Inr (Some (freshTree ''stch'' 2
         [(emptySubtable 1)\<lparr>coverage := CoverageFormat1 [1], sequences := [GlyphList [2, 3]]\<rparr>]))"
  by (simp add: addMultiple_def getLookupTables_None getSubstFormat_def emptySubtable_def
      putEntry_def binSearch_Nil spliceAt_def setItem_def setSubtable_freshTree)

lemma lookups_ensureScript [simp]: "lookups (ensureScript g n) = lookups g"
  by (simp add: ensureScript_def split: option.splits)

lemma lookups_mapScript [simp]: "lookups (mapScript si f g) = lookups g"
  by (simp add: mapScript_def)

lemma lookups_ensureFeature [simp]: "lookups (ensureFeature g si ref ls feat) = lookups g"
  by (simp add: ensureFeature_def split: option.splits)

lemma lookups_ensureLookup:
  "lookups (ensureLookup g fi ltype) = lookups g
   \<or> lookups (ensureLookup g fi ltype) = lookups g @ [freshLookup ltype]"
  by (simp add: ensureLookup_def freshLookup_def)

lemma lookups_ensurePath [simp]: "lookups (ensurePath g scr language feat) = lookups g"
  by (simp add: ensurePath_def Let_def split: option.splits)

lemma lookups_ensure:
  "lookups (ensure g scr language feat ltype) = lookups g
   \<or> lookups (ensure g scr language feat ltype) = lookups g @ [freshLookup ltype]"
proof (cases "locate (ensurePath g scr language feat) scr language feat")
  case None
  then show ?thesis by (simp add: ensure_def)
next
  case (Some r)
  obtain si ref fi where "r = (si, ref, fi)" by (cases r)
  with Some lookups_ensureLookup [of "ensurePath g scr language feat" fi ltype]
  show ?thesis by (simp add: ensure_def)
qed

lemma resolve_in_range:
  "i \<in> set (resolve g scr language feat ltype)
   \<Longrightarrow> i < length (lookups g) \<and> lookupType (lookups g ! i) = ltype"
  by (auto simp: resolve_def lookupsOfType_def split: option.splits prod.splits)

lemma deltaSingles_ensure:
  "deltaSingles (Some (ensure g scr language feat ltype)) k = deltaSingles (Some g) k"
  using lookups_ensure [of g scr language feat ltype]
  by (auto simp: deltaSingles_def freshLookup_def nth_append)

lemma deltaSingles_createDefaultTable: "deltaSingles (Some createDefaultTable) k = []"
  by (simp add: deltaSingles_def createDefaultTable_def)

lemma deltaSingles_getLookupTables:
  "getLookupTables font scr language feat ltype create = (font1, idxs)
   \<Longrightarrow> deltaSingles font1 k = deltaSingles font k"
  by (auto simp: getLookupTables_def Let_def deltaSingles_ensure deltaSingles_createDefaultTable
      split: if_splits option.splits)
     (simp add: deltaSingles_def)

lemma getLookupTables_in_range:
  "getLookupTables font scr language feat ltype create = (Some g, idxs) \<Longrightarrow> i \<in> set idxs
   \<Longrightarrow> i < length (lookups g) \<and> lookupType (lookups g ! i) = ltype"
  by (auto simp: getLookupTables_def Let_def resolve_in_range split: if_splits option.splits)

lemma deltaSingles_setSubtable:
  assumes "i < length (lookups g)"
    and "lookupType (lookups g ! i) = 1 \<Longrightarrow>
           filter (\<lambda>st. substFormat st = 1) (subs[j := st])
             = filter (\<lambda>st. substFormat st = 1) (subtables (lookups g ! i))"
  shows "deltaSingles (setSubtable g i subs j st) k = deltaSingles (Some g) k"
  using assms by (cases "k = i") (auto simp: deltaSingles_def setSubtable_def)

lemma filter_update_other:
  "j < length xs \<Longrightarrow> \<not> P (xs ! j) \<Longrightarrow> \<not> P y \<Longrightarrow> filter P (xs[j := y]) = filter P xs"
proof (induction xs arbitrary: j)
  case Nil
  then show ?case by simp
next
  case (Cons x xs)
  then show ?case by (cases j) auto
qed

lemma findIndex_Some:
  "findIndex P xs = Some j \<Longrightarrow> j < length xs \<and> P (xs ! j) \<and> (\<forall>k < j. \<not> P (xs ! k))"
proof (induction xs arbitrary: j)
  case Nil
  then show ?case by simp
next
  case (Cons x xs)
  show ?case
  proof (cases "P x")
    case True
    with Cons.prems show ?thesis by simp
  next
    case False
    with Cons.prems obtain j' where j': "findIndex P xs = Some j'" and j: "j = Suc j'"
      by auto
    from Cons.IH [OF j'] False j show ?thesis
      by (auto simp: less_Suc_eq_0_disj)
  qed
qed

lemma findIndex_None: "findIndex P xs = None \<longleftrightarrow> (\<forall>x \<in> set xs. \<not> P x)"
  by (induction xs) auto

lemma getSubstFormat_cases:
  assumes "getSubstFormat subs fmt (Some d) = (subs', r)"
  obtains j where "r = Some j" and "subs' = subs" and "j < length subs"
      and "substFormat (subs ! j) = fmt"
  | "r = Some (length subs)" and "subs' = subs @ [d]"
      and "\<forall>st \<in> set subs. substFormat st \<noteq> fmt"
proof (cases "findIndex (\<lambda>st. substFormat st = fmt) subs")
  case None
  with assms have "r = Some (length subs)" "subs' = subs @ [d]"
    by (auto simp: getSubstFormat_def)
  moreover from None have "\<forall>st \<in> set subs. substFormat st \<noteq> fmt"
    by (simp add: findIndex_None)
  ultimately show ?thesis using that(2) by blast
next
  case (Some j)
  with assms have "r = Some j" "subs' = subs" by (auto simp: getSubstFormat_def)
  with findIndex_Some [OF Some] show ?thesis using that(1) by blast
qed

lemma putEntry_Nil: "putEntry [] [] cg v = ([cg], [v])"
  by (simp add: putEntry_def binSearch_Nil spliceAt_def setItem_def)

lemma addSingle_appends:
  assumes gl: "getLookupTables font scr language feat 1 True = (Some g, i # rest)"
    and f1: "\<forall>st \<in> set (subtables (lookups g ! i)). substFormat st = 1"
  shows "addSingle font feat cg v scr language =
           Inr (Some (g\<lparr>lookups := (lookups g)
                  [i := (lookups g ! i)\<lparr>subtables := subtables (lookups g ! i)
                     @ [(emptySubtable 2)\<lparr>coverage := CoverageFormat1 [cg],
                                            substitute := [v]\<rparr>]\<rparr>]\<rparr>))"
proof -
  from f1 have "findIndex (\<lambda>st. substFormat st = 2) (subtables (lookups g ! i)) = None"
    by (auto simp: findIndex_None)
  then have gs: "getSubstFormat (subtables (lookups g ! i)) 2 (Some (emptySubtable 2))
      = (subtables (lookups g ! i) @ [emptySubtable 2], Some (length (subtables (lookups g ! i))))"
    by (simp add: getSubstFormat_def)
  from gl gs show ?thesis
    by (simp add: addSingle_def putEntry_Nil setSubtable_def emptySubtable_def)
qed

lemma mutation_frame:
  assumes gl: "getLookupTables font scr language feat ltype True = (Some g, i # rest)"
    and gs: "getSubstFormat (subtables (lookups g ! i)) fmt (Some (emptySubtable fmt)) = (subs, Some j)"
    and fmt: "ltype = 1 \<Longrightarrow> fmt \<noteq> 1"
    and st: "substFormat st = fmt"
  shows "deltaSingles (setSubtable g i subs j st) k = deltaSingles font k"
proof -
  from getLookupTables_in_range [OF gl, of i]
  have i: "i < length (lookups g)" and ty: "lookupType (lookups g ! i) = ltype" by auto
  have "deltaSingles (setSubtable g i subs j st) k = deltaSingles (Some g) k"
  proof (rule deltaSingles_setSubtable [OF i])
    assume "lookupType (lookups g ! i) = 1"
    with ty fmt have ne: "fmt \<noteq> 1" by simp
    from gs show "filter (\<lambda>st. substFormat st = 1) (subs[j := st])
                  = filter (\<lambda>st. substFormat st = 1) (subtables (lookups g ! i))"
    proof (cases rule: getSubstFormat_cases)
      case (1 j')
      with ne st show ?thesis by (simp add: filter_update_other)
    next
      case 2
      with ne st show ?thesis by simp
    qed
  qed
  with deltaSingles_getLookupTables [OF gl] show ?thesis by simp
qed

lemma addSingle_frame:
  assumes "addSingle font feat cg v scr language = Inr font'"
  shows "deltaSingles font' k = deltaSingles font k"
proof -
  from assms obtain g i rest subs j glyphs st
    where gl: "getLookupTables font scr language feat 1 True = (Some g, i # rest)"
      and gs: "getSubstFormat (subtables (lookups g ! i)) 2 (Some (emptySubtable 2)) = (subs, Some j)"
      and f: "font' = setSubtable g i subs j st" and st: "substFormat st = substFormat (subs ! j)"
    by (auto simp: addSingle_def Let_def split: prod.splits option.splits list.splits coverage.splits)
  from gs have "substFormat (subs ! j) = 2"
    by (cases rule: getSubstFormat_cases) (auto simp: emptySubtable_def)
  with st have "substFormat st = 2" by simp
  from mutation_frame [OF gl gs _ this] f show ?thesis by simp
qed

lemma addMultiple_frame:
  assumes "addMultiple font feat cg v scr language = Inr font'"
  shows "deltaSingles font' k = deltaSingles font k"
proof -
  from assms obtain g i rest subs j glyphs st
    where gl: "getLookupTables font scr language feat 2 True = (Some g, i # rest)"
      and gs: "getSubstFormat (subtables (lookups g ! i)) 1 (Some (emptySubtable 1)) = (subs, Some j)"
      and f: "font' = setSubtable g i subs j st" and st: "substFormat st = substFormat (subs ! j)"
    by (auto simp: addMultiple_def Let_def
        split: if_splits prod.splits option.splits list.splits coverage.splits)
  from gs have "substFormat (subs ! j) = 1"
    by (cases rule: getSubstFormat_cases) (auto simp: emptySubtable_def)
  with st have "substFormat st = 1" by simp
  from mutation_frame [OF gl gs _ this] f show ?thesis by simp
qed

lemma addAlternate_frame:
  assumes "addAlternate font feat cg v scr language = Inr font'"
  shows "deltaSingles font' k = deltaSingles font k"
proof -
  from assms obtain g i rest subs j glyphs st
    where gl: "getLookupTables font scr language feat 3 True = (Some g, i # rest)"
      and gs: "getSubstFormat (subtables (lookups g ! i)) 1 (Some (emptySubtable 1)) = (subs, Some j)"
      and f: "font' = setSubtable g i subs j st" and st: "substFormat st = substFormat (subs ! j)"
    by (auto simp: addAlternate_def Let_def
        split: if_splits prod.splits option.splits list.splits coverage.splits)
  from gs have "substFormat (subs ! j) = 1"
    by (cases rule: getSubstFormat_cases) (auto simp: emptySubtable_def)
  with st have "substFormat st = 1" by simp
  from mutation_frame [OF gl gs _ this] f show ?thesis by simp
qed

lemma addLigature_frame:
  assumes "addLigature font feat cg comps v scr language = Inr font'"
  shows "deltaSingles font' k = deltaSingles font k"
proof -
  from assms obtain g i rest subs st
    where gl: "getLookupTables font scr language feat 4 True = (Some g, i # rest)"
      and f: "font' = setSubtable g i subs 0 st"
    by (auto simp: addLigature_def Let_def
        split: if_splits prod.splits option.splits list.splits coverage.splits sum.splits)
  from getLookupTables_in_range [OF gl, of i]
  have i: "i < length (lookups g)" and ty: "lookupType (lookups g ! i) = 4" by auto
  have "deltaSingles (setSubtable g i subs 0 st) k = deltaSingles (Some g) k"
    by (rule deltaSingles_setSubtable [OF i]) (simp add: ty)
  with deltaSingles_getLookupTables [OF gl] f show ?thesis by simp
qed

lemma binSearchLoop_found:
  "sorted_wrt (<) arr \<Longrightarrow> hi \<le> length arr \<Longrightarrow> p < length arr \<Longrightarrow> arr ! p = v
   \<Longrightarrow> lo \<le> p \<Longrightarrow> p < hi \<Longrightarrow> binSearchLoop arr v lo hi = int p"
proof (induction arr v lo hi rule: binSearchLoop.induct)
  case (1 arr v lo hi)
  let ?mid = "(lo + hi) div 2"
  have lt: "lo < hi" using 1 by simp
  have mid: "?mid < length arr" "lo \<le> ?mid" "?mid < hi" using 1 lt by auto
  show ?case
  proof (cases "arr ! ?mid = v")
    case True
    have "?mid = p"
    proof (rule ccontr)
      assume ne: "?mid \<noteq> p"
      then consider "?mid < p" | "p < ?mid" by linarith
      then show False
      proof cases
        case 1
        with \<open>sorted_wrt (<) arr\<close> \<open>p < length arr\<close> have "arr ! ?mid < arr ! p"
          by (simp add: sorted_wrt_iff_nth_less)
        with True \<open>arr ! p = v\<close> show False by simp
      next
        case 2
        with \<open>sorted_wrt (<) arr\<close> mid have "arr ! p < arr ! ?mid"
          by (simp add: sorted_wrt_iff_nth_less)
        with True \<open>arr ! p = v\<close> show False by simp
      qed
    qed
    with True lt 1(4) show ?thesis
      by (subst binSearchLoop.simps) (simp add: Let_def)
  next
    case False
    show ?thesis
    proof (cases "arr ! ?mid < v")
      case True
      have "?mid < p"
      proof (rule ccontr)
        assume "\<not> ?mid < p"
        with False \<open>arr ! p = v\<close> have "p < ?mid" by (cases "p = ?mid") auto
        with \<open>sorted_wrt (<) arr\<close> mid have "arr ! p < arr ! ?mid"
          by (simp add: sorted_wrt_iff_nth_less)
        with True \<open>arr ! p = v\<close> show False by simp
      qed
      with 1 False True lt mid have "binSearchLoop arr v (?mid + 1) hi = int p"
        by (intro "1.IH"(1)) auto
      with False True lt 1(4) show ?thesis
        by (subst binSearchLoop.simps) (simp add: Let_def)
    next
      case gt: False
      have "p < ?mid"
      proof (rule ccontr)
        assume "\<not> p < ?mid"
        with False \<open>arr ! p = v\<close> have "?mid < p" by (cases "p = ?mid") auto
        with \<open>sorted_wrt (<) arr\<close> \<open>p < length arr\<close> have "arr ! ?mid < arr ! p"
          by (simp add: sorted_wrt_iff_nth_less)
        with gt \<open>arr ! p = v\<close> show False by simp
      qed
      with 1 False gt lt mid have "binSearchLoop arr v lo ?mid = int p"
        by (intro "1.IH"(2)) auto
      with False gt lt 1(4) show ?thesis
        by (subst binSearchLoop.simps) (simp add: Let_def)
    qed
  qed
qed


lemma binSearch_found:
  assumes "sorted_wrt (<) arr" and "p < length arr"
  shows "binSearch arr (arr ! p) = int p"
  unfolding binSearch_def
  by (rule binSearchLoop_found [OF assms(1) _ assms(2)]) (use assms in auto)

lemma binSearchLoop_notfound:
  "sorted_wrt (<) arr \<Longrightarrow> v \<notin> set arr \<Longrightarrow> lo \<le> hi \<Longrightarrow> hi \<le> length arr
   \<Longrightarrow> \<forall>k < lo. arr ! k < v \<Longrightarrow> \<forall>k. hi \<le> k \<and> k < length arr \<longrightarrow> v < arr ! k
   \<Longrightarrow> \<exists>p. binSearchLoop arr v lo hi = - 1 - int p \<and> p \<le> length arr
          \<and> (\<forall>k < p. arr ! k < v) \<and> (\<forall>k. p \<le> k \<and> k < length arr \<longrightarrow> v < arr ! k)"
proof (induction arr v lo hi rule: binSearchLoop.induct)
  case (1 arr v lo hi)
  show ?case
  proof (cases "lo < hi")
    case False
    with 1(5) have "lo = hi" by simp
    with False 1 have "binSearchLoop arr v lo hi = - 1 - int lo"
      by (subst binSearchLoop.simps) simp
    with 1 \<open>lo = hi\<close> show ?thesis by auto
  next
    case True
    let ?mid = "(lo + hi) div 2"
    have mid: "?mid < length arr" "lo \<le> ?mid" "?mid < hi" using 1(6) True by auto
    from 1(4) mid have ne: "arr ! ?mid \<noteq> v" by (metis nth_mem)
    show ?thesis
    proof (cases "arr ! ?mid < v")
      case lt: True
      have below: "\<forall>k < ?mid + 1. arr ! k < v"
      proof (intro allI impI)
        fix k assume "k < ?mid + 1"
        then consider "k = ?mid" | "k < ?mid" by linarith
        then show "arr ! k < v"
        proof cases
          case 1
          with lt show ?thesis by simp
        next
          case 2
          with \<open>sorted_wrt (<) arr\<close> mid have "arr ! k < arr ! ?mid"
            by (simp add: sorted_wrt_iff_nth_less)
          with lt show ?thesis by simp
        qed
      qed
      from "1.IH"(1) [OF _ refl ne lt 1(3) 1(4) _ 1(6) below 1(8)] True 1(6) mid
      obtain p where "binSearchLoop arr v (?mid + 1) hi = - 1 - int p" "p \<le> length arr"
        "\<forall>k < p. arr ! k < v" "\<forall>k. p \<le> k \<and> k < length arr \<longrightarrow> v < arr ! k"
        by auto
      moreover from True 1(6) ne lt
      have "binSearchLoop arr v lo hi = binSearchLoop arr v (?mid + 1) hi"
        by (subst binSearchLoop.simps) (simp add: Let_def)
      ultimately show ?thesis by auto
    next
      case ge: False
      with ne have gt: "v < arr ! ?mid" by simp
      have above: "\<forall>k. ?mid \<le> k \<and> k < length arr \<longrightarrow> v < arr ! k"
      proof (intro allI impI)
        fix k assume k: "?mid \<le> k \<and> k < length arr"
        then consider "k = ?mid" | "?mid < k" by linarith
        then show "v < arr ! k"
        proof cases
          case 1
          with gt show ?thesis by simp
        next
          case 2
          with \<open>sorted_wrt (<) arr\<close> k have "arr ! ?mid < arr ! k"
            by (simp add: sorted_wrt_iff_nth_less)
          with gt show ?thesis by simp
        qed
      qed
      from "1.IH"(2) [OF _ refl ne ge 1(3) 1(4) _ _ 1(7) above] True 1(6) mid
      obtain p where "binSearchLoop arr v lo ?mid = - 1 - int p" "p \<le> length arr"
        "\<forall>k < p. arr ! k < v" "\<forall>k. p \<le> k \<and> k < length arr \<longrightarrow> v < arr ! k"
        by auto
      moreover from True 1(6) ne ge
      have "binSearchLoop arr v lo hi = binSearchLoop arr v lo ?mid"
        by (subst binSearchLoop.simps) (simp add: Let_def)
      ultimately show ?thesis by auto
    qed
  qed
qed

lemma binSearch_notfound:
  assumes "sorted_wrt (<) arr" and "v \<notin> set arr"
  shows "\<exists>p. binSearch arr v = - 1 - int p \<and> p \<le> length arr
          \<and> (\<forall>k < p. arr ! k < v) \<and> (\<forall>k. p \<le> k \<and> k < length arr \<longrightarrow> v < arr ! k)"
  unfolding binSearch_def
  by (rule binSearchLoop_notfound [OF assms]) auto

lemma sorted_spliceAt:
  assumes "sorted_wrt (<) arr" and "p \<le> length arr"
    and below: "\<forall>k < p. arr ! k < v"
    and above: "\<forall>k. p \<le> k \<and> k < length arr \<longrightarrow> v < arr ! k"
  shows "sorted_wrt (<) (spliceAt arr p (v::int))"
proof -
  have t: "\<forall>x \<in> set (take p arr). x < v"
    using below assms(2) by (auto simp: in_set_conv_nth)
  have d: "\<forall>y \<in> set (drop p arr). v < y"
    using above assms(2) by (auto simp: in_set_conv_nth)
  from sorted_wrt_append [of "(<)" "take p arr" "drop p arr"] assms(1)
  have "sorted_wrt (<) (take p arr)" "sorted_wrt (<) (drop p arr)"
    "\<forall>x \<in> set (take p arr). \<forall>y \<in> set (drop p arr). x < y"
    by simp_all
  with t d show ?thesis
    by (auto simp: spliceAt_def sorted_wrt_append)
qed

lemma length_spliceAt [simp]: "length (spliceAt xs p x) = Suc (length xs)"
  by (simp add: spliceAt_def)

lemma set_spliceAt [simp]: "set (spliceAt xs p x) = insert x (set xs)"
proof -
  have "set (take p xs) \<union> set (drop p xs) = set xs"
    by (metis append_take_drop_id set_append)
  then show ?thesis by (auto simp: spliceAt_def)
qed

lemma length_setItem: "i < length arr \<Longrightarrow> length (setItem arr i v) = length arr"
  by (simp add: setItem_def)

lemma putEntry_invariant:
  assumes "sorted_wrt (<) glyphs" and "length arr = length glyphs"
    and "putEntry glyphs arr cg v = (glyphs', arr')"
  shows "sorted_wrt (<) glyphs' \<and> length arr' = length glyphs' \<and> set glyphs' = insert cg (set glyphs)"
proof (cases "cg \<in> set glyphs")
  case True
  then obtain p where p: "p < length glyphs" "glyphs ! p = cg"
    by (auto simp: in_set_conv_nth)
  with binSearch_found [OF assms(1) p(1)] have "binSearch glyphs cg = int p" by simp
  with assms p True show ?thesis
    by (auto simp: putEntry_def length_setItem)
next
  case False
  from binSearch_notfound [OF assms(1) False]
  obtain p where p: "binSearch glyphs cg = - 1 - int p" "p \<le> length glyphs"
    "\<forall>k < p. glyphs ! k < cg" "\<forall>k. p \<le> k \<and> k < length glyphs \<longrightarrow> cg < glyphs ! k"
    by blast
  from p(1) have neg: "binSearch glyphs cg < 0" and np: "nat (- 1 - binSearch glyphs cg) = p"
    by auto
  from assms(3) neg np have g': "glyphs' = spliceAt glyphs p cg"
    and a': "arr' = setItem (spliceAt arr p (Glyph 0)) p v"
    by (auto simp: putEntry_def Let_def)
  from sorted_spliceAt [OF assms(1) p(2) p(3) p(4)] g' have "sorted_wrt (<) glyphs'" by simp
  moreover from a' g' assms(2) p(2) have "length arr' = length glyphs'"
    by (simp add: length_setItem)
  ultimately show ?thesis using g' by simp
qed

lemma subtableAt_setSubtable:
  "i < length (lookups g) \<Longrightarrow> j < length subs
   \<Longrightarrow> subtableAt (setSubtable g i subs j st) i j = Some st"
  by (simp add: subtableAt_def setSubtable_def)

lemma getSubstFormat_index:
  "getSubstFormat subs fmt (Some d) = (subs', Some j) \<Longrightarrow> j < length subs'"
  by (erule getSubstFormat_cases) auto

lemma addSingle_invariant:
  assumes gl: "getLookupTables font scr language feat 1 True = (Some g, i # rest)"
    and gs: "getSubstFormat (subtables (lookups g ! i)) 2 (Some (emptySubtable 2)) = (subs, Some j)"
    and inv: "ascending (subs ! j) (length (substitute (subs ! j)))"
  shows "\<exists>font' st'. addSingle font feat cg v scr language = Inr font'
           \<and> subtableAt font' i j = Some st' \<and> ascending st' (length (substitute st'))"
proof -
  from inv obtain glyphs where c: "coverage (subs ! j) = CoverageFormat1 glyphs"
    and s: "sorted_wrt (<) glyphs" and l: "length (substitute (subs ! j)) = length glyphs"
    by (auto simp: ascending_def split: coverage.splits)
  obtain glyphs' arr' where p: "putEntry glyphs (substitute (subs ! j)) cg v = (glyphs', arr')"
    by (cases "putEntry glyphs (substitute (subs ! j)) cg v")
  let ?st = "(subs ! j)\<lparr>coverage := CoverageFormat1 glyphs', substitute := arr'\<rparr>"
  from gl gs c p have a: "addSingle font feat cg v scr language = Inr (setSubtable g i subs j ?st)"
    by (simp add: addSingle_def)
  from getLookupTables_in_range [OF gl, of i] have i: "i < length (lookups g)" by simp
  from putEntry_invariant [OF s l p] have "ascending ?st (length (substitute ?st))"
    by (simp add: ascending_def)
  with a subtableAt_setSubtable [OF i getSubstFormat_index [OF gs]] show ?thesis by blast
qed

lemma addMultiple_invariant:
  assumes gl: "getLookupTables font scr language feat 2 True = (Some g, i # rest)"
    and gs: "getSubstFormat (subtables (lookups g ! i)) 1 (Some (emptySubtable 1)) = (subs, Some j)"
    and inv: "ascending (subs ! j) (length (sequences (subs ! j)))"
    and v: "length ids > 1"
  shows "\<exists>font' st'. addMultiple font feat cg (GlyphList ids) scr language = Inr font'
           \<and> subtableAt font' i j = Some st' \<and> ascending st' (length (sequences st'))"
proof -
  from inv obtain glyphs where c: "coverage (subs ! j) = CoverageFormat1 glyphs"
    and s: "sorted_wrt (<) glyphs" and l: "length (sequences (subs ! j)) = length glyphs"
    by (auto simp: ascending_def split: coverage.splits)
  obtain glyphs' arr' where p: "putEntry glyphs (sequences (subs ! j)) cg (GlyphList ids) = (glyphs', arr')"
    by (cases "putEntry glyphs (sequences (subs ! j)) cg (GlyphList ids)")
  let ?st = "(subs ! j)\<lparr>coverage := CoverageFormat1 glyphs', sequences := arr'\<rparr>"
  from gl gs c p v
  have a: "addMultiple font feat cg (GlyphList ids) scr language = Inr (setSubtable g i subs j ?st)"
    by (simp add: addMultiple_def)
  from getLookupTables_in_range [OF gl, of i] have i: "i < length (lookups g)" by simp
  from putEntry_invariant [OF s l p] have "ascending ?st (length (sequences ?st))"
    by (simp add: ascending_def)
  with a subtableAt_setSubtable [OF i getSubstFormat_index [OF gs]] show ?thesis by blast
qed

lemma addAlternate_invariant:
  assumes gl: "getLookupTables font scr language feat 3 True = (Some g, i # rest)"
    and gs: "getSubstFormat (subtables (lookups g ! i)) 1 (Some (emptySubtable 1)) = (subs, Some j)"
    and inv: "ascending (subs ! j) (length (alternateSets (subs ! j)))"
  shows "\<exists>font' st'. addAlternate font feat cg v scr language = Inr font'
           \<and> subtableAt font' i j = Some st' \<and> ascending st' (length (alternateSets st'))"
proof -
  from inv obtain glyphs where c: "coverage (subs ! j) = CoverageFormat1 glyphs"
    and s: "sorted_wrt (<) glyphs" and l: "length (alternateSets (subs ! j)) = length glyphs"
    by (auto simp: ascending_def split: coverage.splits)
  obtain glyphs' arr' where p: "putEntry glyphs (alternateSets (subs ! j)) cg v = (glyphs', arr')"
    by (cases "putEntry glyphs (alternateSets (subs ! j)) cg v")
  let ?st = "(subs ! j)\<lparr>coverage := CoverageFormat1 glyphs', alternateSets := arr'\<rparr>"
  from gl gs c p have a: "addAlternate font feat cg v scr language = Inr (setSubtable g i subs j ?st)"
    by (simp add: addAlternate_def)
  from getLookupTables_in_range [OF gl, of i] have i: "i < length (lookups g)" by simp
  from putEntry_invariant [OF s l p] have "ascending ?st (length (alternateSets ?st))"
    by (simp add: ascending_def)
  with a subtableAt_setSubtable [OF i getSubstFormat_index [OF gs]] show ?thesis by blast
qed

lemma arraysEqualLoop_zip:
  "length a = length b \<Longrightarrow>
     arraysEqualLoop (zip a b)
       = (if a = b then Inr True else Inl (ReferenceError ''isObject is not defined''))"
  by (induction a b rule: list_induct2) (auto simp: equals_def)

lemma arraysEqual_cases:
  "arraysEqual a b =
     (if length a \<noteq> length b then Inr False
      else if a = b then Inr True
      else Inl (ReferenceError ''isObject is not defined''))"
  by (simp add: arraysEqual_def arraysEqualLoop_zip)

lemma ligatureExists_True:
  "ligatureExists ligatureSet comps = Inr True \<Longrightarrow> comps \<in> components ` set ligatureSet"
  by (induction ligatureSet) (auto simp: arraysEqual_cases split: if_splits)

lemma ligatureExists_False:
  "ligatureExists ligatureSet comps = Inr False
     \<longleftrightarrow> (\<forall>l \<in> set ligatureSet. length (components l) \<noteq> length comps)"
  by (induction ligatureSet) (auto simp: arraysEqual_cases split: if_splits)

lemma ligatureExists_Inl:
  "ligatureExists ligatureSet comps = Inl e \<Longrightarrow> e = ReferenceError ''isObject is not defined''"
  by (induction ligatureSet) (auto simp: arraysEqual_cases split: if_splits)

lemma addLigature_invariant:
  assumes gl: "getLookupTables font scr language feat 4 True = (Some g, i # rest)"
    and inv: "\<And>st sts. subtables (lookups g ! i) = st # sts \<Longrightarrow> ascending st (length (ligatureSets st))"
    and ok: "addLigature font feat cg comps v scr language = Inr font'"
  shows "\<exists>st'. subtableAt font' i 0 = Some st' \<and> ascending st' (length (ligatureSets st'))"
proof -
  define subs where "subs = (case subtables (lookups g ! i) of [] \<Rightarrow> [emptySubtable 1] | st # sts \<Rightarrow> st # sts)"
  define st where "st = (case subtables (lookups g ! i) of [] \<Rightarrow> emptySubtable 1 | st # sts \<Rightarrow> st)"
  have st_inv: "ascending st (length (ligatureSets st))"
    using inv by (auto simp: st_def ascending_def emptySubtable_def split: list.splits)
  then obtain glyphs where c: "coverage st = CoverageFormat1 glyphs"
    and s: "sorted_wrt (<) glyphs" and l: "length (ligatureSets st) = length glyphs"
    by (auto simp: ascending_def split: coverage.splits)
  have ne: "0 < length subs" by (simp add: subs_def split: list.splits)
  from getLookupTables_in_range [OF gl, of i] have i: "i < length (lookups g)" by simp
  show ?thesis
  proof (cases "cg \<in> set glyphs")
    case True
    then obtain p where p: "p < length glyphs" "glyphs ! p = cg"
      by (auto simp: in_set_conv_nth)
    with binSearch_found [OF s p(1)] have b: "binSearch glyphs cg = int p" by simp
    from ok gl c b p l obtain st' where f: "font' = setSubtable g i subs 0 st'"
      and st': "st' = st \<or> (\<exists>x. st' = st\<lparr>ligatureSets := (ligatureSets st)[p := x]\<rparr>)"
      by (auto simp: addLigature_def Let_def subs_def st_def
          split: option.splits if_splits sum.splits)
    from st' st_inv c s l have "ascending st' (length (ligatureSets st'))"
      by (auto simp: ascending_def)
    with f subtableAt_setSubtable [OF i ne] show ?thesis by blast
  next
    case False
    from binSearch_notfound [OF s False]
    obtain p where p: "binSearch glyphs cg = - 1 - int p" "p \<le> length glyphs"
      "\<forall>k < p. glyphs ! k < cg" "\<forall>k. p \<le> k \<and> k < length glyphs \<longrightarrow> cg < glyphs ! k"
      by blast
    from p(1) have neg: "\<not> binSearch glyphs cg \<ge> 0" and np: "nat (- 1 - binSearch glyphs cg) = p"
      by auto
    let ?st = "st\<lparr>coverage := CoverageFormat1 (spliceAt glyphs p cg),
                  ligatureSets := spliceAt (ligatureSets st) p (Some [\<lparr>ligGlyph = v, components = comps\<rparr>])\<rparr>"
    from ok gl c neg np have f: "font' = setSubtable g i subs 0 ?st"
      by (auto simp: addLigature_def Let_def subs_def st_def)
    from sorted_spliceAt [OF s p(2) p(3) p(4)] l have "ascending ?st (length (ligatureSets ?st))"
      by (simp add: ascending_def)
    with f subtableAt_setSubtable [OF i ne] show ?thesis by blast
  qed
qed

lemma mapScript_same:
  "si < length (scripts g) \<Longrightarrow> f (scriptRecord.script (scripts g ! si)) = scriptRecord.script (scripts g ! si)
   \<Longrightarrow> mapScript si f g = g"
  by (simp add: mapScript_def)

lemma findScript_Some: "findScript g name = Some si \<Longrightarrow> si < length (scripts g)"
  by (auto simp: findScript_def dest: findIndex_Some)

lemma ensurePath_located:
  assumes "locate g scr language feat = Some (si, ref, fi)"
  shows "ensurePath g scr language feat = g"
proof -
  from assms obtain ls
    where si: "findScript g (scriptName g scr) = Some si"
      and ref: "findLangSys (scriptRecord.script (scripts g ! si)) language = Some ref"
      and ls: "langSysAt (scriptRecord.script (scripts g ! si)) ref = Some ls"
      and fi: "findFeature g ls feat = Some fi"
    by (auto simp: locate_def split: option.splits)
  have g1: "ensureScript g (scriptName g scr) = g" using si by (simp add: ensureScript_def)
  have g2: "mapScript si (\<lambda>s. ensureLangSysIn s language) g = g"
    by (rule mapScript_same [OF findScript_Some [OF si]]) (simp add: ensureLangSysIn_def ref)
  have g3: "ensureFeature g si ref ls feat = g" using fi by (simp add: ensureFeature_def)
  show ?thesis
    by (simp add: ensurePath_def Let_def g1 si g2 ref ls g3)
qed

lemma ensure_resolved:
  assumes "resolve g scr language feat ltype \<noteq> []"
  shows "ensure g scr language feat ltype = g"
proof -
  from assms obtain si ref fi
    where loc: "locate g scr language feat = Some (si, ref, fi)"
      and lt: "lookupsOfType g (lookupListIndexes (featureRecord.feature (features g ! fi))) ltype \<noteq> []"
    by (auto simp: resolve_def split: option.splits)
  from lt have "ensureLookup g fi ltype = g" by (simp add: ensureLookup_def)
  with ensurePath_located [OF loc] loc show ?thesis by (simp add: ensure_def)
qed

lemma getLookupTables_resolved:
  assumes "resolve g scr language feat ltype = i # rest"
  shows "getLookupTables (Some g) scr language feat ltype create = (Some g, i # rest)"
  using assms ensure_resolved [of g scr language feat ltype]
  by (simp add: getLookupTables_def)

lemma setSubtable_same:
  "i < length (lookups g) \<Longrightarrow> subtables (lookups g ! i) = st # sts
   \<Longrightarrow> setSubtable g i (st # sts) 0 st = Some g"
  by (simp add: setSubtable_def) (metis list_update_id lookupTable.surjective lookupTable.update_convs(3) gsub.surjective gsub.update_convs(4) old.unit.exhaust)

lemma addLigature_existing:
  assumes r: "resolve g scr language feat 4 = i # rest"
    and subs: "subtables (lookups g ! i) = st # sts"
    and c: "coverage st = CoverageFormat1 glyphs"
    and s: "sorted_wrt (<) glyphs"
    and p: "p < length glyphs" "p < length (ligatureSets st)"
    and set: "ligatureSets st ! p = Some ligatureSet"
  shows "addLigature (Some g) feat (glyphs ! p) comps v scr language =
           (case ligatureExists ligatureSet comps of
              Inl e \<Rightarrow> Inl e
            | Inr found \<Rightarrow>
                if found then Inr (Some g)
                else Inr (Some (g\<lparr>lookups := (lookups g)
                       [i := (lookups g ! i)\<lparr>subtables :=
                          st\<lparr>ligatureSets := (ligatureSets st)
                               [p := Some (ligatureSet @ [\<lparr>ligGlyph = v, components = comps\<rparr>])]\<rparr>
                          # sts\<rparr>]\<rparr>)))"
proof -
  note gl = getLookupTables_resolved [OF r, of True]
  from getLookupTables_in_range [OF gl, of i] have i: "i < length (lookups g)" by simp
  from binSearch_found [OF s p(1)] have b: "binSearch glyphs (glyphs ! p) = int p" .
  from gl subs c b p set
  have "addLigature (Some g) feat (glyphs ! p) comps v scr language =
           (case ligatureExists ligatureSet comps of
              Inl e \<Rightarrow> Inl e
            | Inr found \<Rightarrow>
                if found then Inr (setSubtable g i (st # sts) 0 st)
                else Inr (setSubtable g i (st # sts) 0
                       (st\<lparr>ligatureSets := (ligatureSets st)
                            [p := Some (ligatureSet @ [\<lparr>ligGlyph = v, components = comps\<rparr>])]\<rparr>)))"
    by (simp add: addLigature_def Let_def split: sum.splits)
  with setSubtable_same [OF i subs] show ?thesis
    by (simp add: setSubtable_def split: sum.splits)
qed

lemma binSearch_single: "binSearch [a] a = 0"
  by (simp add: binSearch_def binSearchLoop.simps)

lemma addLigature_first:
  "addLigature None ''liga'' 10 [11] (Glyph 50) None None =
     Inr (Some (freshTree ''liga'' 4
           [ligatureSubtable [10] [Some [\<lparr>ligGlyph = Glyph 50, components = [11]\<rparr>]]]))"
  by (simp add: addLigature_def getLookupTables_None binSearch_Nil spliceAt_def
      setSubtable_freshTree ligatureSubtable_def Let_def emptySubtable_def)

lemma addLigature_second:
  "addLigature (Some (freshTree ''liga'' 4
           [ligatureSubtable [10] [Some [\<lparr>ligGlyph = Glyph 50, components = [11]\<rparr>]]]))
     ''liga'' 10 [12] (Glyph 51) None None =
     Inl (ReferenceError ''isObject is not defined'')"
  by (simp add: addLigature_def getLookupTables_freshTree binSearch_single
      ligatureSubtable_def arraysEqual_def equals_def Let_def emptySubtable_def)

lemma addLigature_again:
  "addLigature (Some (freshTree ''liga'' 4
           [ligatureSubtable [10] [Some [\<lparr>ligGlyph = Glyph 50, components = [11]\<rparr>]]]))
     ''liga'' 10 [11] (Glyph 50) None None =
     Inr (Some (freshTree ''liga'' 4
           [ligatureSubtable [10] [Some [\<lparr>ligGlyph = Glyph 50, components = [11]\<rparr>]]]))"
  by (simp add: addLigature_def getLookupTables_freshTree binSearch_single
      setSubtable_freshTree ligatureSubtable_def arraysEqual_def equals_def Let_def emptySubtable_def)

lemma addLigature_longer:
  "addLigature (Some (freshTree ''liga'' 4
           [ligatureSubtable [10] [Some [\<lparr>ligGlyph = Glyph 50, components = [11]\<rparr>]]]))
     ''liga'' 10 [11, 12] (Glyph 52) None None =
     Inr (Some (freshTree ''liga'' 4
           [ligatureSubtable [10] [Some [\<lparr>ligGlyph = Glyph 50, components = [11]\<rparr>,
                                         \<lparr>ligGlyph = Glyph 52, components = [11, 12]\<rparr>]]]))"
  by (simp add: addLigature_def getLookupTables_freshTree binSearch_single
      setSubtable_freshTree ligatureSubtable_def arraysEqual_def equals_def Let_def emptySubtable_def)

lemma addLigature_later_subtable:
  "addLigature (Some (freshTree ''liga'' 4
           [ligatureSubtable [] [],
            ligatureSubtable [10] [Some [\<lparr>ligGlyph = Glyph 50, components = [11]\<rparr>]]]))
     ''liga'' 10 [11] (Glyph 50) None None =
     Inr (Some (freshTree ''liga'' 4
           [ligatureSubtable [10] [Some [\<lparr>ligGlyph = Glyph 50, components = [11]\<rparr>]],
            ligatureSubtable [10] [Some [\<lparr>ligGlyph = Glyph 50, components = [11]\<rparr>]]]))"
  by (simp add: addLigature_def getLookupTables_freshTree binSearch_Nil spliceAt_def
      setSubtable_freshTree ligatureSubtable_def Let_def emptySubtable_def)

lemma lookupTablesAt_freshTree:
  "lookupTablesAt (Some (freshTree feat ltype subs)) [0]
     = [\<lparr>lookupType = ltype, lookupFlag = 0, subtables = subs\<rparr>]"
  by (simp add: lookupTablesAt_def)

lemma upto_3_5: "[3..5] = [3, 4, 5::int]"
  by (simp add: upto.simps)

text \<open>
  C1 fails on the code. A format-2 subtable covering glyphs 3 and 5 with substitutes 7
  and 9 is listed as the pair (3, 7) twice, and a format-1 subtable covering 3..5 with
  delta 4 as the pair (3, 7) three times; multiple and alternate substitutions
  likewise repeat the pair at index 0. Every subtable is scanned.
\<close>

theorem getSingle_repeats_first_pair:
  "getSingle (Some (freshTree ''ss01'' 1 [arrayExample])) ''ss01'' None None
     = [\<lparr>sub = Glyph 3, by = Glyph 7\<rparr>, \<lparr>sub = Glyph 3, by = Glyph 7\<rparr>]
   \<and> getSingle (Some (freshTree ''ss01'' 1 [deltaExample])) ''ss01'' None None
     = [\<lparr>sub = Glyph 3, by = Glyph 7\<rparr>, \<lparr>sub = Glyph 3, by = Glyph 7\<rparr>,
        \<lparr>sub = Glyph 3, by = Glyph 7\<rparr>]
   \<and> getMultiple (Some (freshTree ''ccmp'' 2 [sequenceExample])) ''ccmp'' None None
     = [\<lparr>sub = Glyph 3, by = GlyphList [7, 8]\<rparr>, \<lparr>sub = Glyph 3, by = GlyphList [7, 8]\<rparr>]
   \<and> getAlternates (Some (freshTree ''aalt'' 3 [alternateExample])) ''aalt'' None None
     = [\<lparr>sub = Glyph 3, by = GlyphList [7, 8]\<rparr>, \<lparr>sub = Glyph 3, by = GlyphList [7, 8]\<rparr>]"
  by (simp add: getSingle_def getMultiple_def getAlternates_def getLookupTables_freshTree
      lookupTablesAt_freshTree singleEntries_def multipleEntries_def alternateEntries_def
      arrayExample_def deltaExample_def sequenceExample_def alternateExample_def
      emptySubtable_def glyphAt_def itemAt_def plusDelta_def upto_3_5 Let_def)

text \<open>
  C4 fails on the code for \<open>add\<close>. \<open>getFeature\<close> of \<open>stch\<close> is \<open>getMultiple\<close>, but
  \<open>add\<close> has no case for \<open>stch\<close>: on a font without a GSUB tree,
  \<open>add("stch", {sub: 1, by: [2, 3]})\<close> returns leaving the font without one, where
  \<open>addMultiple\<close> records the substitution.
\<close>

theorem add_stch_not_routed:
  "getFeature None ''stch'' None None = Inr (Some (getMultiple None ''stch'' None None))
   \<and> add None ''stch'' \<lparr>sub = Glyph 1, by = GlyphList [2, 3]\<rparr> None None = Some (Inr None)
   \<and> addMultiple None ''stch'' 1 (GlyphList [2, 3]) None None
       = Inr (Some (freshTree ''stch'' 2
           [(emptySubtable 1)\<lparr>coverage := CoverageFormat1 [1],
                              sequences := [GlyphList [2, 3]]\<rparr>]))"
  by (simp add: getFeature_def add_def isDigit_def addMultiple_fresh)

section \<open>Feature dispatch\<close>

text \<open>
  C10. For a feature tag that does not match \<open>/ss\d\d/\<close> and is none of aalt, salt,
  dlig, liga, rlig, ccmp, stch: \<open>getFeature\<close> returns \<open>undefined\<close>, and \<open>add\<close>
  returns leaving the font's GSUB tree as it was (and a font without one, without one).
\<close>

theorem unknown_feature_undefined:
  assumes "\<not> stylisticSet feat"
    and "feat \<notin> {''aalt'', ''salt'', ''dlig'', ''liga'', ''rlig'', ''ccmp'', ''stch''}"
  shows "getFeature font feat scr language = Inr None
       \<and> add font feat s scr language = Some (Inr font)"
  using assms by (simp add: getFeature_def add_def)

lemma stylisticSet_kern: "\<not> stylisticSet ''kern''"
  by (simp add: isDigit_def)

theorem unknown_feature_undefined_witness:
  "getFeature (Some createDefaultTable) ''kern'' None None = Inr None
   \<and> add (Some createDefaultTable) ''kern'' \<lparr>sub = Glyph 1, by = Glyph 2\<rparr> None None
       = Some (Inr (Some createDefaultTable))"
  using unknown_feature_undefined [of "''kern''" "Some createDefaultTable"
      None None "\<lparr>sub = Glyph 1, by = Glyph 2\<rparr>"] stylisticSet_kern
  by simp

section \<open>Format-1 subtables, the coverage invariant, ligature sets\<close>

lemma mutate_frame:
  assumes "mutate font feat m scr language = Inr font'"
  shows "deltaSingles font' k = deltaSingles font k"
  using assms
  by (cases m) (auto dest: addSingle_frame addMultiple_frame addAlternate_frame addLigature_frame)

text \<open>
  C7. When the lookup table \<open>addSingle\<close> targets holds format-1 subtables only, the
  call leaves them as they are and appends a format-2 subtable, with a fresh format-1
  coverage, that receives the substitution. And whatever the mutation, the format-1
  single-substitution subtables of every lookup table are the same after it as before.
\<close>

theorem addSingle_leaves_format1:
  "(getLookupTables font scr language feat 1 True = (Some g, i # rest)
      \<and> (\<forall>st \<in> set (subtables (lookups g ! i)). substFormat st = 1)
    \<longrightarrow> addSingle font feat cg v scr language =
          Inr (Some (g\<lparr>lookups := (lookups g)
                 [i := (lookups g ! i)\<lparr>subtables := subtables (lookups g ! i)
                    @ [(emptySubtable 2)\<lparr>coverage := CoverageFormat1 [cg],
                                           substitute := [v]\<rparr>]\<rparr>]\<rparr>)))
   \<and> (mutate font feat m scr language = Inr font'
        \<longrightarrow> deltaSingles font' k = deltaSingles font k)"
  using addSingle_appends [of font scr language feat g i rest cg v]
    mutate_frame [of font feat m scr language font' k]
  by blast

lemma deltaExample_format [simp]: "substFormat deltaExample = 1"
  by (simp add: deltaExample_def emptySubtable_def)

theorem addSingle_leaves_format1_witness:
  "getLookupTables (Some (freshTree ''ss01'' 1 [deltaExample])) None None ''ss01'' 1 True
     = (Some (freshTree ''ss01'' 1 [deltaExample]), [0])
   \<and> addSingle (Some (freshTree ''ss01'' 1 [deltaExample])) ''ss01'' 5 (Glyph 9) None None
     = Inr (Some (freshTree ''ss01'' 1
         [deltaExample,
          (emptySubtable 2)\<lparr>coverage := CoverageFormat1 [5], substitute := [Glyph 9]\<rparr>]))
   \<and> deltaSingles (Some (freshTree ''ss01'' 1
         [deltaExample,
          (emptySubtable 2)\<lparr>coverage := CoverageFormat1 [5], substitute := [Glyph 9]\<rparr>])) 0
     = [deltaExample]"
proof -
  let ?T = "freshTree ''ss01'' 1 [deltaExample]"
  let ?T2 = "freshTree ''ss01'' 1
         [deltaExample,
          (emptySubtable 2)\<lparr>coverage := CoverageFormat1 [5], substitute := [Glyph 9]\<rparr>]"
  have gl: "getLookupTables (Some ?T) None None ''ss01'' 1 True = (Some ?T, [0])"
    by (rule getLookupTables_freshTree)
  have f1: "\<forall>st \<in> set (subtables (lookups ?T ! 0)). substFormat st = 1"
    by simp
  have d: "deltaSingles (Some ?T) 0 = [deltaExample]"
    by (simp add: deltaSingles_def)
  note t = addSingle_leaves_format1 [of "Some ?T" None None "''ss01''" ?T 0 "[]" 5 "Glyph 9"
      "AddSingle 5 (Glyph 9)" "Some ?T2" 0]
  have eq: "?T\<lparr>lookups := (lookups ?T)
                 [0 := (lookups ?T ! 0)\<lparr>subtables := subtables (lookups ?T ! 0)
                    @ [(emptySubtable 2)\<lparr>coverage := CoverageFormat1 [5],
                                           substitute := [Glyph 9]\<rparr>]\<rparr>]\<rparr> = ?T2"
    by (simp add: freshTree_def)
  from t gl f1 have "addSingle (Some ?T) ''ss01'' 5 (Glyph 9) None None =
      Inr (Some (?T\<lparr>lookups := (lookups ?T)
                 [0 := (lookups ?T ! 0)\<lparr>subtables := subtables (lookups ?T ! 0)
                    @ [(emptySubtable 2)\<lparr>coverage := CoverageFormat1 [5],
                                           substitute := [Glyph 9]\<rparr>]\<rparr>]\<rparr>))"
    by blast
  then have a: "addSingle (Some ?T) ''ss01'' 5 (Glyph 9) None None = Inr (Some ?T2)"
    by (simp only: eq)
  then have "mutate (Some ?T) ''ss01'' (AddSingle 5 (Glyph 9)) None None = Inr (Some ?T2)"
    by simp
  with t have "deltaSingles (Some ?T2) 0 = deltaSingles (Some ?T) 0" by blast
  with d have "deltaSingles (Some ?T2) 0 = [deltaExample]" by simp
  with gl a show ?thesis by blast
qed

text \<open>
  C6. For each of the four mutations: when the glyph list of the target subtable's
  format-1 coverage is strictly ascending and its parallel array has the same length,
  and the mutation returns, the target subtable's glyph list is strictly ascending
  afterwards and its parallel array has the same length. The target is the subtable
  the mutation selects in the first lookup table \<open>getLookupTables\<close> returns.
\<close>

theorem mutation_keeps_coverage_ascending:
  assumes gl: "getLookupTables font scr language feat (mutationType m) True = (Some g, i # rest)"
    and tg: "target m (subtables (lookups g ! i)) = (subs, Some j)"
    and inv: "ascending (subs ! j) (parallelArray m (subs ! j))"
    and ok: "mutate font feat m scr language = Inr font'"
  shows "\<exists>st'. subtableAt font' i j = Some st' \<and> ascending st' (parallelArray m st')"
proof (cases m)
  case (AddSingle cg v)
  with addSingle_invariant [of font scr language feat g i rest subs j cg v] gl tg inv ok
  show ?thesis by auto
next
  case (AddMultiple cg v)
  with ok obtain ids where v: "v = GlyphList ids" "length ids > 1"
    by (auto simp: addMultiple_def split: item.splits if_splits)
  with AddMultiple addMultiple_invariant [of font scr language feat g i rest subs j ids cg] gl tg inv ok
  show ?thesis by auto
next
  case (AddAlternate cg v)
  with addAlternate_invariant [of font scr language feat g i rest subs j cg v] gl tg inv ok
  show ?thesis by auto
next
  case (AddLigature cg comps v)
  with tg have j: "j = 0" by (auto split: list.splits)
  have "ascending st (length (ligatureSets st))"
    if "subtables (lookups g ! i) = st # sts" for st sts
  proof -
    from that tg AddLigature have "subs = st # sts" by simp
    with inv AddLigature j show ?thesis by simp
  qed
  note inv4 = this
  from gl AddLigature have gl4: "getLookupTables font scr language feat 4 True = (Some g, i # rest)"
    by simp
  from ok AddLigature have ok4: "addLigature font feat cg comps v scr language = Inr font'"
    by simp
  from addLigature_invariant [OF gl4 inv4 ok4] AddLigature j
  show ?thesis by auto
qed

lemma binSearch_5_3: "binSearch [5] 3 = - 1"
  by (simp add: binSearch_def binSearchLoop.simps)

lemma addSingle_fiveNine:
  "addSingle (Some (freshTree ''ss01'' 1 [fiveNine])) ''ss01'' 3 (Glyph 7) None None
     = Inr (Some (freshTree ''ss01'' 1 [arrayExample]))"
  by (simp add: addSingle_def getLookupTables_freshTree getSubstFormat_def fiveNine_def
      emptySubtable_def putEntry_def binSearch_5_3 spliceAt_def setItem_def
      setSubtable_freshTree arrayExample_def)

theorem mutation_keeps_coverage_ascending_witness:
  "getLookupTables (Some (freshTree ''ss01'' 1 [fiveNine])) None None ''ss01''
      (mutationType (AddSingle 3 (Glyph 7))) True
     = (Some (freshTree ''ss01'' 1 [fiveNine]), [0])
   \<and> target (AddSingle 3 (Glyph 7)) (subtables (lookups (freshTree ''ss01'' 1 [fiveNine]) ! 0))
     = ([fiveNine], Some 0)
   \<and> ascending ([fiveNine] ! 0) (parallelArray (AddSingle 3 (Glyph 7)) ([fiveNine] ! 0))
   \<and> mutate (Some (freshTree ''ss01'' 1 [fiveNine])) ''ss01'' (AddSingle 3 (Glyph 7)) None None
     = Inr (Some (freshTree ''ss01'' 1 [arrayExample]))
   \<and> subtableAt (Some (freshTree ''ss01'' 1 [arrayExample])) 0 0 = Some arrayExample
   \<and> ascending arrayExample (parallelArray (AddSingle 3 (Glyph 7)) arrayExample)"
proof -
  have gl: "getLookupTables (Some (freshTree ''ss01'' 1 [fiveNine])) None None ''ss01''
      (mutationType (AddSingle 3 (Glyph 7))) True
     = (Some (freshTree ''ss01'' 1 [fiveNine]), [0])"
    by (simp add: getLookupTables_freshTree [where ltype = 1, simplified])
  have tg: "target (AddSingle 3 (Glyph 7)) (subtables (lookups (freshTree ''ss01'' 1 [fiveNine]) ! 0))
     = ([fiveNine], Some 0)"
    by (simp add: getSubstFormat_def fiveNine_def emptySubtable_def)
  have inv: "ascending ([fiveNine] ! 0) (parallelArray (AddSingle 3 (Glyph 7)) ([fiveNine] ! 0))"
    by (simp add: ascending_def fiveNine_def)
  have ok: "mutate (Some (freshTree ''ss01'' 1 [fiveNine])) ''ss01'' (AddSingle 3 (Glyph 7)) None None
     = Inr (Some (freshTree ''ss01'' 1 [arrayExample]))"
    by (simp only: mutate.simps addSingle_fiveNine)
  have at: "subtableAt (Some (freshTree ''ss01'' 1 [arrayExample])) 0 0 = Some arrayExample"
    by (simp add: subtableAt_def)
  from mutation_keeps_coverage_ascending [OF gl tg inv ok] at
  have "ascending arrayExample (parallelArray (AddSingle 3 (Glyph 7)) arrayExample)"
    by simp
  with gl tg inv ok at show ?thesis by blast
qed

text \<open>
  C5. On a font without a GSUB tree, adding the ligature \<open>{sub: [10, 11], by: 50}\<close>
  gives glyph 10 the ligature set of that one entry, and adding it again leaves the
  tree as it is. Adding \<open>{sub: [10, 12], by: 51}\<close> after it does not append a second
  entry: \<open>arraysEqual([11], [12])\<close> reaches \<open>equals(11, 12)\<close>, which evaluates the
  unbound name \<open>isObject\<close>, and the call ends in a \<open>ReferenceError\<close> before the
  entry is pushed, so the result is not the tree with the set of the two entries.
\<close>

theorem addLigature_other_components_throws:
  "addLigature None ''liga'' 10 [11] (Glyph 50) None None
     = Inr (Some (freshTree ''liga'' 4 [ligatureSubtable [10] [Some [ligature50]]]))
   \<and> addLigature (Some (freshTree ''liga'' 4 [ligatureSubtable [10] [Some [ligature50]]]))
         ''liga'' 10 [11] (Glyph 50) None None
       = Inr (Some (freshTree ''liga'' 4 [ligatureSubtable [10] [Some [ligature50]]]))
   \<and> addLigature (Some (freshTree ''liga'' 4 [ligatureSubtable [10] [Some [ligature50]]]))
         ''liga'' 10 [12] (Glyph 51) None None
       = Inl (ReferenceError ''isObject is not defined'')
   \<and> addLigature (Some (freshTree ''liga'' 4 [ligatureSubtable [10] [Some [ligature50]]]))
         ''liga'' 10 [12] (Glyph 51) None None
       \<noteq> Inr (Some (freshTree ''liga'' 4
               [ligatureSubtable [10] [Some [ligature50, ligature51]]]))"
  using addLigature_first addLigature_again addLigature_second
  by (simp add: ligature50_def)

section \<open>Creating the path to a lookup table, and reading back a substitution\<close>

lemma findIndex_map: "findIndex (\<lambda>r. P (f r)) xs = findIndex P (map f xs)"
  by (induction xs) auto

lemma findIndex_append:
  "findIndex P (xs @ [x]) =
     (case findIndex P xs of
        Some i \<Rightarrow> Some i
      | None \<Rightarrow> if P x then Some (length xs) else None)"
  by (induction xs) (auto split: option.splits)

lemma find_append_last:
  "\<forall>x \<in> set xs. P x \<longrightarrow> x = n \<Longrightarrow> P n \<Longrightarrow> find P (xs @ [n]) = Some n"
  by (induction xs) auto

lemma scriptName_tags:
  "map scriptRecord.tag (scripts g') = map scriptRecord.tag (scripts g)
   \<Longrightarrow> scriptName g' scr = scriptName g scr"
proof -
  assume e: "map scriptRecord.tag (scripts g') = map scriptRecord.tag (scripts g)"
  have f: "findIndex (\<lambda>r. scriptRecord.tag r = ''DFLT'') (scripts g')
      = findIndex (\<lambda>r. scriptRecord.tag r = ''DFLT'') (scripts g)"
    by (simp only: findIndex_map [of "\<lambda>t. t = ''DFLT''" scriptRecord.tag] e)
  have h: "(case scripts g' of [] \<Rightarrow> ''DFLT'' | r # rs \<Rightarrow> scriptRecord.tag r)
      = (case scripts g of [] \<Rightarrow> ''DFLT'' | r # rs \<Rightarrow> scriptRecord.tag r)"
    using e by (cases "scripts g'"; cases "scripts g") auto
  show ?thesis by (simp only: scriptName_def f h)
qed

lemma findScript_tags:
  "map scriptRecord.tag (scripts g') = map scriptRecord.tag (scripts g)
   \<Longrightarrow> findScript g' n = findScript g n"
  by (simp only: findScript_def findIndex_map [of "\<lambda>t. t = n" scriptRecord.tag])

lemma tags_mapScript [simp]:
  "map scriptRecord.tag (scripts (mapScript si f g)) = map scriptRecord.tag (scripts g)"
proof (cases "si < length (scripts g)")
  case True
  then show ?thesis
    by (intro nth_equalityI) (auto simp: mapScript_def nth_list_update)
next
  case False
  then have "length (scripts g) \<le> si" by simp
  then show ?thesis by (simp add: mapScript_def list_update_beyond)
qed

lemma script_mapScript:
  "si < length (scripts g)
   \<Longrightarrow> scriptRecord.script (scripts (mapScript si f g) ! si) = f (scriptRecord.script (scripts g ! si))"
  by (simp add: mapScript_def)

lemma features_mapScript [simp]: "features (mapScript si f g) = features g"
  by (simp add: mapScript_def)

lemma features_ensureScript [simp]: "features (ensureScript g n) = features g"
  by (simp add: ensureScript_def split: option.splits)

lemma scriptName_ensureScript:
  "scriptName (ensureScript g (scriptName g scr)) scr = scriptName g scr"
proof (cases scr)
  case (Some s)
  then show ?thesis by (simp add: scriptName_def)
next
  case None
  show ?thesis
  proof (cases "findScript g (scriptName g scr)")
    case (Some si)
    then show ?thesis by (simp add: ensureScript_def)
  next
    case nf: None
    have "scripts g = []"
    proof (cases "scripts g")
      case Nil
      then show ?thesis .
    next
      case (Cons r rs)
      with None nf show ?thesis
        by (auto simp: scriptName_def findScript_def split: if_splits)
    qed
    with None nf show ?thesis
      by (simp add: scriptName_def findScript_def ensureScript_def)
  qed
qed

lemma findScript_ensureScript: "\<exists>si. findScript (ensureScript g n) n = Some si"
  by (cases "findScript g n")
     (auto simp: ensureScript_def findScript_def findIndex_append)

lemma findLangSys_langSysAt:
  "findLangSys s language = Some ref \<Longrightarrow> \<exists>ls. langSysAt s ref = Some ls"
  by (auto simp: findLangSys_def split: if_splits option.splits dest: findIndex_Some)

lemma ensureLangSysIn_same:
  "findLangSys s language = Some ref \<Longrightarrow> ensureLangSysIn s language = s"
  by (simp add: ensureLangSysIn_def)

lemma ensureLangSysIn_new:
  assumes "findLangSys s language = None"
  shows "\<exists>ref. findLangSys (ensureLangSysIn s language) language = Some ref
           \<and> langSysAt (ensureLangSysIn s language) ref = Some newLangSys"
proof (cases "isDefaultLanguage language")
  case True
  with assms show ?thesis
    by (auto simp: ensureLangSysIn_def findLangSys_def split: option.splits)
next
  case False
  then obtain l where l: "language = Some l" by (auto simp: isDefaultLanguage_def)
  from assms False
  have n: "findIndex (\<lambda>r. Some (langSysRecord.tag r) = Some l) (langSysRecords s) = None"
    by (simp add: findLangSys_def l)
  from assms False
  have s': "ensureLangSysIn s (Some l) = s\<lparr>langSysRecords := langSysRecords s
                    @ [\<lparr>langSysRecord.tag = l, langSys = newLangSys\<rparr>]\<rparr>"
    by (simp add: ensureLangSysIn_def l)
  have "findLangSys (ensureLangSysIn s (Some l)) (Some l)
          = Some (LangSysRecord (length (langSysRecords s)))"
    using False n by (simp add: s' l findLangSys_def findIndex_append)
  moreover have "langSysAt (ensureLangSysIn s (Some l)) (LangSysRecord (length (langSysRecords s)))
          = Some newLangSys"
    by (simp add: s')
  ultimately show ?thesis unfolding l by blast
qed

lemma findLangSys_mapLangSys: "findLangSys (mapLangSys ref f s) language = findLangSys s language"
proof (cases ref)
  case DefaultLangSys
  then show ?thesis by (cases "defaultLangSys s") (simp_all add: findLangSys_def)
next
  case (LangSysRecord j)
  let ?xs = "langSysRecords s"
  have tags: "map langSysRecord.tag (?xs[j := (?xs ! j)\<lparr>langSys := f (langSys (?xs ! j))\<rparr>])
      = map langSysRecord.tag ?xs"
  proof (cases "j < length ?xs")
    case True
    then show ?thesis by (intro nth_equalityI) (auto simp: nth_list_update)
  next
    case False
    then have "length ?xs \<le> j" by simp
    then show ?thesis by (simp add: list_update_beyond)
  qed
  have "findIndex (\<lambda>r. Some (langSysRecord.tag r) = language)
          (?xs[j := (?xs ! j)\<lparr>langSys := f (langSys (?xs ! j))\<rparr>])
      = findIndex (\<lambda>r. Some (langSysRecord.tag r) = language) ?xs"
    by (simp only: findIndex_map [of "\<lambda>t. Some t = language" langSysRecord.tag] tags)
  with LangSysRecord show ?thesis by (simp add: findLangSys_def)
qed

lemma langSysAt_mapLangSys:
  "langSysAt s ref = Some ls \<Longrightarrow> langSysAt (mapLangSys ref f s) ref = Some (f ls)"
  by (cases ref) (auto split: if_splits)

lemma findFeature_Nil: "featureIndexes ls = [] \<Longrightarrow> findFeature g ls feat = None"
  by (simp add: findFeature_def)

lemma featureIndexes_newLangSys [simp]: "featureIndexes newLangSys = []"
  by (simp add: newLangSys_def)

lemma ensurePath_unlocated:
  assumes un: "locate g scr language feat = None"
  shows "\<exists>si ref fi. locate (ensurePath g scr language feat) scr language feat = Some (si, ref, fi)
           \<and> fi < length (features (ensurePath g scr language feat))
           \<and> lookupListIndexes (featureRecord.feature (features (ensurePath g scr language feat) ! fi)) = []"
proof -
  let ?name = "scriptName g scr"
  let ?g1 = "ensureScript g ?name"
  obtain si where si: "findScript ?g1 ?name = Some si"
    using findScript_ensureScript by blast
  have si_lt: "si < length (scripts ?g1)" by (rule findScript_Some [OF si])
  let ?s1 = "scriptRecord.script (scripts ?g1 ! si)"
  let ?g2 = "mapScript si (\<lambda>s. ensureLangSysIn s language) ?g1"
  let ?s2 = "scriptRecord.script (scripts ?g2 ! si)"
  have s2: "?s2 = ensureLangSysIn ?s1 language" by (rule script_mapScript [OF si_lt])
  have name2: "scriptName ?g2 scr = ?name"
    by (simp add: scriptName_tags [of ?g2 ?g1] scriptName_ensureScript)
  have si2: "findScript ?g2 ?name = Some si"
    by (simp add: findScript_tags [of ?g2 ?g1] si)
  have si2_lt: "si < length (scripts ?g2)" by (rule findScript_Some [OF si2])
  have "\<exists>ref ls. findLangSys ?s2 language = Some ref \<and> langSysAt ?s2 ref = Some ls
          \<and> findFeature ?g2 ls feat = None"
  proof (cases "findScript g ?name")
    case None
    then have g1: "?g1 = g\<lparr>scripts := scripts g
                @ [\<lparr>scriptRecord.tag = ?name,
                    script = \<lparr>defaultLangSys = Some newLangSys, langSysRecords = []\<rparr>\<rparr>]\<rparr>"
      by (simp add: ensureScript_def)
    from None si have "si = length (scripts g)"
      by (simp add: g1 findScript_def findIndex_append)
    then have s1: "?s1 = \<lparr>defaultLangSys = Some newLangSys, langSysRecords = []\<rparr>"
      by (simp add: g1)
    show ?thesis
    proof (cases "findLangSys ?s1 language")
      case nl: None
      from ensureLangSysIn_new [OF nl] s2 show ?thesis
        by (auto simp: findFeature_Nil)
    next
      case (Some ref)
      then have "ref = DefaultLangSys"
        by (auto simp: s1 findLangSys_def split: if_splits)
      with Some have "findLangSys ?s2 language = Some DefaultLangSys"
        "langSysAt ?s2 DefaultLangSys = Some newLangSys"
        by (simp_all add: s2 ensureLangSysIn_same s1)
      then show ?thesis by (auto simp: findFeature_Nil)
    qed
  next
    case (Some si')
    then have g1: "?g1 = g" by (simp add: ensureScript_def)
    with si Some have si': "si' = si" by simp
    show ?thesis
    proof (cases "findLangSys ?s1 language")
      case nl: None
      from ensureLangSysIn_new [OF nl] s2 show ?thesis
        by (auto simp: findFeature_Nil)
    next
      case sr: (Some ref)
      then have s2s1: "?s2 = ?s1" by (simp add: s2 ensureLangSysIn_same)
      from findLangSys_langSysAt [OF sr] obtain ls where ls: "langSysAt ?s1 ref = Some ls"
        by blast
      from un Some si' sr ls g1 have "findFeature g ls feat = None"
        by (simp add: locate_def split: option.splits)
      then have "findFeature ?g2 ls feat = None" by (simp add: findFeature_def g1)
      with sr ls s2s1 show ?thesis by auto
    qed
  qed
  then obtain ref ls where ref: "findLangSys ?s2 language = Some ref"
    and ls: "langSysAt ?s2 ref = Some ls" and nf: "findFeature ?g2 ls feat = None"
    by blast
  let ?n = "length (features ?g2)"
  let ?newf = "\<lparr>featureRecord.tag = feat, feature = \<lparr>featureParams = 0, lookupListIndexes = []\<rparr>\<rparr>"
  let ?app = "\<lambda>l. l\<lparr>featureIndexes := featureIndexes l @ [?n]\<rparr>"
  let ?g2f = "?g2\<lparr>features := features ?g2 @ [?newf]\<rparr>"
  let ?g3 = "mapScript si (mapLangSys ref ?app) ?g2f"
  have g3: "ensurePath g scr language feat = ?g3"
    by (simp add: ensurePath_def Let_def si ref ls ensureFeature_def nf)
  have feats3: "features ?g3 = features ?g2 @ [?newf]" by simp
  have name3: "scriptName ?g3 scr = ?name"
    using name2 scriptName_tags [of ?g3 ?g2] by simp
  have si3: "findScript ?g3 ?name = Some si"
    using si2 findScript_tags [of ?g3 ?g2] by simp
  have si2f_lt: "si < length (scripts ?g2f)" using si2_lt by simp
  have s3: "scriptRecord.script (scripts ?g3 ! si) = mapLangSys ref ?app ?s2"
    using script_mapScript [OF si2f_lt, of "mapLangSys ref ?app"] by simp
  have ref3: "findLangSys (scriptRecord.script (scripts ?g3 ! si)) language = Some ref"
    by (simp only: s3 findLangSys_mapLangSys ref)
  have ls3: "langSysAt (scriptRecord.script (scripts ?g3 ! si)) ref = Some (?app ls)"
    by (simp only: s3 langSysAt_mapLangSys [OF ls])
  from nf have none: "\<forall>i \<in> set (featureIndexes ls).
      \<not> (i < ?n \<and> featureRecord.tag (features ?g2 ! i) = feat)"
    by (simp add: findFeature_def find_None_iff)
  let ?P = "\<lambda>i. i < length (features ?g2 @ [?newf])
                \<and> featureRecord.tag ((features ?g2 @ [?newf]) ! i) = feat"
  have "find ?P (featureIndexes ls @ [?n]) = Some ?n"
  proof (rule find_append_last)
    show "\<forall>i \<in> set (featureIndexes ls). ?P i \<longrightarrow> i = ?n"
      using none by (auto simp: nth_append less_Suc_eq)
    show "?P ?n" by simp
  qed
  then have fi3: "findFeature ?g3 (?app ls) feat = Some ?n"
    unfolding findFeature_def feats3 by simp
  have "locate ?g3 scr language feat = Some (si, ref, ?n)"
    by (simp only: locate_def name3 si3 ref3 ls3 fi3 option.case)
  moreover have "?n < length (features ?g3)" by simp
  moreover have "lookupListIndexes (featureRecord.feature (features ?g3 ! ?n)) = []" by simp
  ultimately show ?thesis unfolding g3 by blast
qed

lemma findFeature_tags:
  assumes "map featureRecord.tag (features g') = map featureRecord.tag (features g)"
  shows "findFeature g' ls feat = findFeature g ls feat"
proof -
  from assms have len: "length (features g') = length (features g)"
    by (metis length_map)
  have "(\<lambda>i. i < length (features g') \<and> featureRecord.tag (features g' ! i) = feat)
      = (\<lambda>i. i < length (features g) \<and> featureRecord.tag (features g ! i) = feat)"
  proof (rule ext)
    fix i
    show "(i < length (features g') \<and> featureRecord.tag (features g' ! i) = feat)
        = (i < length (features g) \<and> featureRecord.tag (features g ! i) = feat)"
    proof (cases "i < length (features g)")
      case True
      with len have "featureRecord.tag (features g' ! i) = map featureRecord.tag (features g') ! i"
        by simp
      also have "\<dots> = map featureRecord.tag (features g) ! i" by (simp only: assms)
      also have "\<dots> = featureRecord.tag (features g ! i)" using True by simp
      finally show ?thesis using True len by simp
    next
      case False
      with len show ?thesis by simp
    qed
  qed
  then show ?thesis by (simp only: findFeature_def)
qed

lemma locate_cong:
  assumes "scripts g' = scripts g"
    and "map featureRecord.tag (features g') = map featureRecord.tag (features g)"
  shows "locate g' scr language feat = locate g scr language feat"
proof -
  have n: "scriptName g' scr = scriptName g scr"
    by (rule scriptName_tags) (simp only: assms(1))
  have f: "findScript g' (scriptName g scr) = findScript g (scriptName g scr)"
    by (rule findScript_tags) (simp only: assms(1))
  show ?thesis
    by (simp only: locate_def n f assms(1) findFeature_tags [OF assms(2)])
qed

lemma locate_feature_index:
  "locate g scr language feat = Some (si, ref, fi) \<Longrightarrow> fi < length (features g)"
  by (auto simp: locate_def findFeature_def find_Some_iff split: option.splits)

lemma resolve_cong:
  assumes "scripts g' = scripts g" and "features g' = features g"
    and "map lookupType (lookups g') = map lookupType (lookups g)"
  shows "resolve g' scr language feat ltype = resolve g scr language feat ltype"
proof -
  from assms(3) have len: "length (lookups g') = length (lookups g)" by (metis length_map)
  have ty: "lookupType (lookups g' ! k) = lookupType (lookups g ! k)" if "k < length (lookups g)" for k
  proof -
    from that len have "lookupType (lookups g' ! k) = map lookupType (lookups g') ! k"
      by simp
    also have "\<dots> = map lookupType (lookups g) ! k" by (simp only: assms(3))
    also have "\<dots> = lookupType (lookups g ! k)" using that by simp
    finally show ?thesis .
  qed
  have "lookupsOfType g' idxs ltype = lookupsOfType g idxs ltype" for idxs
    unfolding lookupsOfType_def by (rule filter_cong) (auto simp: len ty)
  moreover have "locate g' scr language feat = locate g scr language feat"
    by (rule locate_cong) (simp_all only: assms(1) assms(2))
  ultimately show ?thesis by (simp only: resolve_def assms(2))
qed

lemma ensureLookup_creates:
  assumes loc: "locate g scr language feat = Some (si, ref, fi)"
    and none: "lookupsOfType g (lookupListIndexes (featureRecord.feature (features g ! fi))) ltype = []"
    and inr: "\<forall>k \<in> set (lookupListIndexes (featureRecord.feature (features g ! fi))). k < length (lookups g)"
  shows "resolve (ensureLookup g fi ltype) scr language feat ltype = [length (lookups g)]
       \<and> lookups (ensureLookup g fi ltype) = lookups g @ [freshLookup ltype]"
proof -
  let ?idxs = "lookupListIndexes (featureRecord.feature (features g ! fi))"
  let ?m = "length (lookups g)"
  let ?g4 = "ensureLookup g fi ltype"
  from locate_feature_index [OF loc] have fi: "fi < length (features g)" .
  from none have g4: "?g4 = g\<lparr>lookups := lookups g @ [freshLookup ltype],
             features := (features g)
               [fi := (features g ! fi)
                  \<lparr>feature := (featureRecord.feature (features g ! fi))
                     \<lparr>lookupListIndexes := ?idxs @ [?m]\<rparr>\<rparr>]\<rparr>"
    by (simp add: ensureLookup_def freshLookup_def)
  have tags: "map featureRecord.tag (features ?g4) = map featureRecord.tag (features g)"
    unfolding g4 using fi by (intro nth_equalityI) (auto simp: nth_list_update)
  have "scripts ?g4 = scripts g" by (simp add: g4)
  from locate_cong [OF this tags] loc
  have loc4: "locate ?g4 scr language feat = Some (si, ref, fi)" by simp
  have idx4: "lookupListIndexes (featureRecord.feature (features ?g4 ! fi)) = ?idxs @ [?m]"
    using fi by (simp add: g4)
  have lk4: "lookups ?g4 = lookups g @ [freshLookup ltype]" by (simp add: g4)
  from none have np: "\<forall>k \<in> set ?idxs. \<not> (k < ?m \<and> lookupType (lookups g ! k) = ltype)"
    by (simp add: lookupsOfType_def filter_empty_conv)
  have "filter (\<lambda>k. k < length (lookups g @ [freshLookup ltype])
                  \<and> lookupType ((lookups g @ [freshLookup ltype]) ! k) = ltype) ?idxs = []"
    using np inr by (auto simp: filter_empty_conv nth_append)
  then have "lookupsOfType ?g4 (?idxs @ [?m]) ltype = [?m]"
    by (simp add: lookupsOfType_def lk4 freshLookup_def)
  with loc4 idx4 lk4 show ?thesis by (simp add: resolve_def)
qed

lemma resolve_ensure_fresh:
  assumes wf: "lookupIndexesInRange (Some g)"
    and r: "resolve g scr language feat ltype = []"
  shows "resolve (ensure g scr language feat ltype) scr language feat ltype = [length (lookups g)]
       \<and> lookups (ensure g scr language feat ltype) = lookups g @ [freshLookup ltype]"
proof (cases "locate g scr language feat")
  case None
  let ?g3 = "ensurePath g scr language feat"
  from ensurePath_unlocated [OF None] obtain si ref fi
    where loc: "locate ?g3 scr language feat = Some (si, ref, fi)"
      and idxs: "lookupListIndexes (featureRecord.feature (features ?g3 ! fi)) = []"
    by blast
  have e: "ensure g scr language feat ltype = ensureLookup ?g3 fi ltype"
    by (simp add: ensure_def loc)
  from ensureLookup_creates [OF loc, of ltype] idxs show ?thesis
    by (simp add: e lookupsOfType_def)
next
  case (Some t)
  obtain si ref fi where t: "t = (si, ref, fi)" by (cases t)
  with Some have loc: "locate g scr language feat = Some (si, ref, fi)" by simp
  from ensurePath_located [OF loc] loc
  have e: "ensure g scr language feat ltype = ensureLookup g fi ltype"
    by (simp add: ensure_def)
  from r loc
  have none: "lookupsOfType g (lookupListIndexes (featureRecord.feature (features g ! fi))) ltype = []"
    by (simp add: resolve_def)
  from locate_feature_index [OF loc] have "features g ! fi \<in> set (features g)" by simp
  with wf
  have inr: "\<forall>k \<in> set (lookupListIndexes (featureRecord.feature (features g ! fi))). k < length (lookups g)"
    by (simp add: lookupIndexesInRange_def)
  from ensureLookup_creates [OF loc none inr] show ?thesis by (simp add: e)
qed

lemma locate_createDefaultTable: "locate createDefaultTable scr language feat = None"
  by (auto simp: locate_def createDefaultTable_def findFeature_def findLangSys_def findScript_def
      split: option.splits if_splits langSysRef.splits)

lemma singleEntries_new:
  "singleEntries ((emptySubtable 2)\<lparr>coverage := CoverageFormat1 [cg], substitute := [v]\<rparr>)
     = [\<lparr>sub = Glyph cg, by = v\<rparr>]"
  by (simp add: singleEntries_def emptySubtable_def glyphAt_def itemAt_def Let_def)

lemma addSingle_getSingle_core:
  assumes gl: "getLookupTables font scr language feat 1 True = (Some g, i # rest)"
    and d: "distinct (i # rest)"
    and e: "\<forall>k \<in> set (i # rest). subtables (lookups g ! k) = []"
  shows "\<exists>font'. addSingle font feat cg v scr language = Inr font'
           \<and> getSingle font' feat scr language = [\<lparr>sub = Glyph cg, by = v\<rparr>]"
proof -
  let ?new = "(emptySubtable 2)\<lparr>coverage := CoverageFormat1 [cg], substitute := [v]\<rparr>"
  let ?g' = "g\<lparr>lookups := (lookups g)[i := (lookups g ! i)\<lparr>subtables := [?new]\<rparr>]\<rparr>"
  from gl have r: "resolve g scr language feat 1 = i # rest"
    by (auto simp: getLookupTables_def Let_def)
  from e have ei: "subtables (lookups g ! i) = []" by simp
  from addSingle_appends [OF gl, of cg v] ei
  have a: "addSingle font feat cg v scr language = Inr (Some ?g')" by simp
  have inr: "\<forall>k \<in> set (i # rest). k < length (lookups g)"
    using resolve_in_range [of _ g scr language feat 1] r by auto
  then have i: "i < length (lookups g)" by simp
  have "map lookupType (lookups ?g') = map lookupType (lookups g)"
    using i by (intro nth_equalityI) (auto simp: nth_list_update)
  then have r': "resolve ?g' scr language feat 1 = i # rest"
    using resolve_cong [of ?g' g scr language feat 1] r by simp
  have rest: "concat (map (\<lambda>lt. concat (map singleEntries (subtables lt)))
                 (map (\<lambda>k. lookups ?g' ! k) rest)) = []"
  proof -
    have "lookups ?g' ! k = lookups g ! k" if "k \<in> set rest" for k
    proof -
      from that d have "i \<noteq> k" by auto
      then show ?thesis by simp
    qed
    with e show ?thesis by simp
  qed
  have at: "lookupTablesAt (Some ?g') (i # rest) = map (\<lambda>k. lookups ?g' ! k) (i # rest)"
    using inr by (simp add: lookupTablesAt_def)
  have "getSingle (Some ?g') feat scr language =
          concat (map (\<lambda>lt. concat (map singleEntries (subtables lt)))
                    (map (\<lambda>k. lookups ?g' ! k) (i # rest)))"
    by (simp only: getSingle_def getLookupTables_def r' at Let_def if_False snd_conv option.case)
  also have "\<dots> = singleEntries ?new"
    using rest i by simp
  finally have "getSingle (Some ?g') feat scr language = [\<lparr>sub = Glyph cg, by = v\<rparr>]"
    by (simp only: singleEntries_new)
  with a show ?thesis by blast
qed

text \<open>
  C3. On a font where the lookup tables of type 1 that a feature resolves to (none, on
  a font without the feature or without a GSUB tree) are listed once each and have no
  subtables, and whose features list only lookup tables that exist:
  \<open>addSingle(feature, {sub, by})\<close> returns, and \<open>getSingle(feature)\<close> then returns
  exactly the one-element list \<open>[{sub, by}]\<close>; so for \<open>ss01\<close> and \<open>{sub: 5, by: 9}\<close>
  with the default script and language.
\<close>

theorem addSingle_then_getSingle:
  assumes wf: "lookupIndexesInRange font"
    and ns: "noSingles font feat scr language"
  shows "\<exists>font'. addSingle font feat cg v scr language = Inr font'
           \<and> getSingle font' feat scr language = [\<lparr>sub = Glyph cg, by = v\<rparr>]"
proof -
  define g0 where "g0 = (case font of None \<Rightarrow> createDefaultTable | Some g \<Rightarrow> g)"
  have wf0: "lookupIndexesInRange (Some g0)"
    using wf by (cases font) (simp_all add: g0_def lookupIndexesInRange_def createDefaultTable_def)
  have glc: "getLookupTables font scr language feat 1 True
      = (Some (ensure g0 scr language feat 1), resolve (ensure g0 scr language feat 1) scr language feat 1)"
    by (simp add: getLookupTables_def g0_def Let_def)
  show ?thesis
  proof (cases "resolve g0 scr language feat 1")
    case Nil
    from resolve_ensure_fresh [OF wf0 Nil]
    have r: "resolve (ensure g0 scr language feat 1) scr language feat 1 = [length (lookups g0)]"
      and l: "lookups (ensure g0 scr language feat 1) = lookups g0 @ [freshLookup 1]"
      by simp_all
    from glc r have gl: "getLookupTables font scr language feat 1 True
      = (Some (ensure g0 scr language feat 1), length (lookups g0) # [])" by simp
    have e: "\<forall>k \<in> set (length (lookups g0) # []).
        subtables (lookups (ensure g0 scr language feat 1) ! k) = []"
      using l by (simp add: freshLookup_def)
    have d: "distinct (length (lookups g0) # [])" by simp
    show ?thesis by (rule addSingle_getSingle_core [OF gl d e])
  next
    case (Cons i rest)
    then have nl: "resolve g0 scr language feat 1 \<noteq> []" by simp
    have font: "font = Some g0"
    proof (cases font)
      case None
      with Cons locate_createDefaultTable show ?thesis
        by (simp add: g0_def resolve_def)
    next
      case (Some g)
      then show ?thesis by (simp add: g0_def)
    qed
    from ensure_resolved [OF nl] glc Cons
    have gl: "getLookupTables font scr language feat 1 True = (Some g0, i # rest)" by simp
    from ns font Cons have d: "distinct (i # rest)"
      and e': "\<forall>lt \<in> set (lookupTablesAt (Some g0) (i # rest)). subtables lt = []"
      by (simp_all add: noSingles_def getLookupTables_def Let_def)
    have inr: "\<forall>k \<in> set (i # rest). k < length (lookups g0)"
      using resolve_in_range [of _ g0 scr language feat 1] Cons by auto
    then have "lookupTablesAt (Some g0) (i # rest) = map (\<lambda>k. lookups g0 ! k) (i # rest)"
      by (simp add: lookupTablesAt_def)
    with e' have e: "\<forall>k \<in> set (i # rest). subtables (lookups g0 ! k) = []" by simp
    show ?thesis by (rule addSingle_getSingle_core [OF gl d e])
  qed
qed

theorem addSingle_then_getSingle_witness:
  "lookupIndexesInRange (Some createDefaultTable)
   \<and> noSingles (Some createDefaultTable) ''ss01'' None None
   \<and> (\<exists>font'. addSingle (Some createDefaultTable) ''ss01'' 5 (Glyph 9) None None = Inr font'
           \<and> getSingle font' ''ss01'' None None = [\<lparr>sub = Glyph 5, by = Glyph 9\<rparr>])"
proof -
  have wf: "lookupIndexesInRange (Some createDefaultTable)"
    by (simp add: lookupIndexesInRange_def createDefaultTable_def)
  have ns: "noSingles (Some createDefaultTable) ''ss01'' None None"
    by (simp add: noSingles_def getLookupTables_def resolve_def locate_createDefaultTable
        lookupTablesAt_def)
  from addSingle_then_getSingle [OF wf ns, of 5 "Glyph 9"] wf ns show ?thesis by blast
qed

section \<open>The layout engine as modelled meets the spec's examples\<close>

lemma upto_10_12: "[10..12] = [10, 11, 12::int]" and upto_20_20: "[20..20] = [20::int]"
  by (simp_all add: upto.simps)

lemma expandCoverage_example:
  "expandCoverage (CoverageFormat2 [\<lparr>start = 10, rangeEnd = 12, index = 0\<rparr>,
                                     \<lparr>start = 20, rangeEnd = 20, index = 3\<rparr>])
     = [10, 11, 12, 20]"
  by (simp add: upto_10_12 upto_20_20)

lemma binSearch_examples:
  "binSearch [3, 7, 9, 15] 9 = 2"
  "binSearch [3, 7, 9, 15] 8 = - 3"
  by (simp_all add: binSearch_def binSearchLoop.simps)

lemma getLookupTables_idempotent:
  assumes wf: "lookupIndexesInRange font"
    and gl: "getLookupTables font scr language feat ltype True = (font1, idxs)"
  shows "getLookupTables font1 scr language feat ltype True = (font1, idxs)"
proof -
  define g0 where "g0 = (case font of None \<Rightarrow> createDefaultTable | Some g \<Rightarrow> g)"
  have wf0: "lookupIndexesInRange (Some g0)"
    using wf by (cases font) (simp_all add: g0_def lookupIndexesInRange_def createDefaultTable_def)
  let ?g = "ensure g0 scr language feat ltype"
  from gl have f1: "font1 = Some ?g" and ix: "idxs = resolve ?g scr language feat ltype"
    by (auto simp: getLookupTables_def g0_def Let_def)
  have "resolve ?g scr language feat ltype \<noteq> []"
  proof (cases "resolve g0 scr language feat ltype = []")
    case True
    from resolve_ensure_fresh [OF wf0 True] show ?thesis by simp
  next
    case False
    with ensure_resolved [OF False] show ?thesis by simp
  qed
  from ensure_resolved [OF this] f1 ix show ?thesis
    by (simp add: getLookupTables_def Let_def)
qed

end
